theory Spec2Isabelle
  imports Complex_Main "HOL-Library.Sublist"
begin

section \<open>JavaScript strings and values\<close>

text \<open>
  A JavaScript string is a sequence of UTF-16 code units; \<open>length\<close>, \<open>trim\<close>,
  \<open>substring\<close> and the regular expressions of the source (none has the \<open>u\<close> flag) all
  work on code units. A string of the model is the list of its code units, as numbers;
  \<open>str\<close> writes a literal of Latin-1 characters as such a list.
\<close>

type_synonym jstring = "nat list"

definition str :: "string \<Rightarrow> jstring" where
  "str s = map of_char s"

definition is_space :: "nat \<Rightarrow> bool" where
  \<comment> \<open>the white space and line terminators that \<open>trim\<close> strips and \<open>\s\<close> matches:
      TAB, LF, VT, FF, CR, SP, NBSP, U+1680, U+2000 to U+200A, U+2028, U+2029, U+202F,
      U+205F, U+3000 and U+FEFF\<close>
  "is_space n =
     (n \<in> {9, 10, 11, 12, 13, 32, 160, 5760, 8232, 8233, 8239, 8287, 12288, 65279} \<or>
      (8192 \<le> n \<and> n \<le> 8202))"

definition trim :: "jstring \<Rightarrow> jstring" where
  "trim s = rev (dropWhile is_space (rev (dropWhile is_space s)))"

definition substring0 :: "nat \<Rightarrow> jstring \<Rightarrow> jstring" where
  \<comment> \<open>\<open>s.substring(0, n)\<close>\<close>
  "substring0 n s = take n s"

definition is_upper :: "nat \<Rightarrow> bool" where
  \<comment> \<open>the capitals below 256: A-Z and 0xC0-0xDE without 0xD7\<close>
  "is_upper n = ((65 \<le> n \<and> n \<le> 90) \<or> (192 \<le> n \<and> n \<le> 222 \<and> n \<noteq> 215))"

definition lower_unit :: "nat \<Rightarrow> nat" where
  "lower_unit n = (if is_upper n then n + 32 else n)"

definition narrow :: "jstring \<Rightarrow> bool" where
  "narrow s = list_all (\<lambda>n. n < 256) s"

definition canonicalize :: "nat \<Rightarrow> nat" where
  \<comment> \<open>the case folding of a regular expression with the \<open>i\<close> flag, as far as a pattern
      of ASCII characters can tell: a-z fold to A-Z, and the canonical form of a code unit
      of 128 or more is never below 128, so it matches no ASCII character\<close>
  "canonicalize n = (if 97 \<le> n \<and> n \<le> 122 then n - 32 else n)"

fun join_nl :: "jstring list \<Rightarrow> jstring" where
  \<comment> \<open>\<open>lines.join("\n")\<close>\<close>
  "join_nl [] = []"
| "join_nl [l] = l"
| "join_nl (l # ls) = l @ [10] @ join_nl ls"

text \<open>
  The values a parsed JSON body can hold, and \<open>undefined\<close> for a property that is not
  there. \<open>JNum\<close> carries the parsed number; the code only tests it for zero and compares
  it with 500. \<open>JObj\<close> lists an object's members in order; where a key is repeated the
  last member counts, as in \<open>JSON.parse\<close>. A parsed body has each key once; the filter
  that rewrites keys can make two of them equal.
\<close>

datatype jsval =
    JUndefined
  | JNull
  | JBool bool
  | JNum rat
  | JStr jstring
  | JArr "jsval list"
  | JObj "(jstring \<times> jsval) list"

fun truthy :: "jsval \<Rightarrow> bool" where
  "truthy JUndefined = False"
| "truthy JNull = False"
| "truthy (JBool b) = b"
| "truthy (JNum q) = (q \<noteq> 0)"
| "truthy (JStr s) = (s \<noteq> [])"
| "truthy (JArr xs) = True"
| "truthy (JObj kvs) = True"

definition js_or :: "jsval \<Rightarrow> jsval \<Rightarrow> jsval" where
  \<comment> \<open>\<open>a || b\<close>\<close>
  "js_or a b = (if truthy a then a else b)"

fun member_of :: "(jstring \<times> jsval) list \<Rightarrow> jstring \<Rightarrow> jsval option" where
  \<comment> \<open>the last member with the key\<close>
  "member_of [] k = None"
| "member_of ((k', v) # kvs) k =
     (case member_of kvs k of
        Some w \<Rightarrow> Some w
      | None \<Rightarrow> if k' = k then Some v else None)"

fun field :: "jsval \<Rightarrow> jstring \<Rightarrow> jsval" where
  \<comment> \<open>\<open>v.k\<close> for one of the data properties the handlers destructure; only an
      object parsed from JSON has one\<close>
  "field (JObj kvs) k = (case member_of kvs k of Some v \<Rightarrow> v | None \<Rightarrow> JUndefined)"
| "field v k = JUndefined"

fun js_length :: "jsval \<Rightarrow> jsval" where
  \<comment> \<open>\<open>v.length\<close> of a value that is neither \<open>null\<close> nor \<open>undefined\<close>\<close>
  "js_length (JStr s) = JNum (of_nat (length s))"
| "js_length (JArr xs) = JNum (of_nat (length xs))"
| "js_length (JObj kvs) = field (JObj kvs) (str ''length'')"
| "js_length v = JUndefined"

record url =
  protocol :: jstring
  hostname :: jstring

text \<open>
  What the code uses of the JavaScript runtime without defining it is a parameter of the
  model: the \<open>URL\<close> constructor (\<open>None\<close> when it throws), \<open>String(v)\<close> of a value
  that is not a string, the comparison \<open>v > n\<close> of a value that is neither a number nor
  \<open>undefined\<close> (\<open>None\<close> when the conversion throws), \<open>toISOString\<close> of a date, and
  \<open>toLowerCase\<close> of a string that has a code unit of 256 or more (where the Unicode
  case tables decide; below 256 lower-casing changes the capitals, unit by unit).
\<close>

record platform =
  new_URL :: "jsval \<Rightarrow> url option"
  to_string :: "jsval \<Rightarrow> jstring"
  js_gt :: "jsval \<Rightarrow> rat \<Rightarrow> bool option"
  toISOString :: "nat \<Rightarrow> jstring"
  lower_wide :: "jstring \<Rightarrow> jstring"

definition toLowerCase :: "platform \<Rightarrow> jstring \<Rightarrow> jstring" where
  "toLowerCase P s = (if narrow s then map lower_unit s else lower_wide P s)"

definition template :: "platform \<Rightarrow> jsval \<Rightarrow> jstring" where
  \<comment> \<open>a value interpolated into a template literal\<close>
  "template P v = (case v of JStr s \<Rightarrow> s | _ \<Rightarrow> to_string P v)"

definition greater :: "platform \<Rightarrow> jsval \<Rightarrow> rat \<Rightarrow> bool option" where
  \<comment> \<open>\<open>v > n\<close>; \<open>undefined\<close> converts to NaN, which is greater than nothing\<close>
  "greater P v n =
     (case v of JNum q \<Rightarrow> Some (n < q) | JUndefined \<Rightarrow> Some False | _ \<Rightarrow> js_gt P v n)"

section \<open>Responses\<close>

datatype payload = Json "(jstring \<times> jsval) list" | Text jstring | Empty

record response =
  status :: nat
  payload :: payload

text \<open>
  What a middleware or handler does with a request: it calls \<open>next()\<close>, it sends a
  response, or an exception leaves it.
\<close>

datatype outcome = Next | Respond response | Throw

definition json_error :: "nat \<Rightarrow> jstring \<Rightarrow> outcome" where
  \<comment> \<open>\<open>res.status(n).json({ error: msg })\<close>\<close>
  "json_error n msg = Respond \<lparr>status = n, payload = Json [(str ''error'', JStr msg)]\<rparr>"

section \<open>Validation (src/server.js)\<close>

definition email_char :: "nat \<Rightarrow> bool" where
  \<comment> \<open>the class \<open>[^\s@]\<close>\<close>
  "email_char c = (\<not> is_space c \<and> c \<noteq> of_char (CHR ''@''))"

definition email_regex :: "jstring \<Rightarrow> bool" where
  \<comment> \<open>\<open>/^[^\s@]+@[^\s@]+\.[^\s@]+$/\<close>: the string splits as \<open>a @ b . c\<close> with
      \<open>a\<close>, \<open>b\<close>, \<open>c\<close> non-empty runs of the class (a dot is in the class, so any
      dot strictly inside the part after the at sign can be the literal one)\<close>
  "email_regex s =
     (let a = takeWhile email_char s; r = dropWhile email_char s in
      a \<noteq> [] \<and>
      (case r of
         [] \<Rightarrow> False
       | c # d \<Rightarrow> c = of_char (CHR ''@'') \<and> list_all email_char d \<and>
                 of_char (CHR ''.'') \<in> set (butlast (tl d))))"

definition isValidEmail :: "jsval \<Rightarrow> bool" where
  "isValidEmail email =
     (case email of JStr s \<Rightarrow> email_regex s \<and> length s \<le> 254 | _ \<Rightarrow> False)"

definition rx_localhost :: "jstring \<Rightarrow> bool" where
  \<comment> \<open>\<open>/^localhost$/i\<close>\<close>
  "rx_localhost h = (map canonicalize h = map canonicalize (str ''localhost''))"

definition rx_172 :: "jstring \<Rightarrow> bool" where
  \<comment> \<open>\<open>/^172\.(1[6-9]|2[0-9]|3[01])\./\<close>\<close>
  "rx_172 h =
     (case h of
        c1 # c2 # c3 # c4 # a # b # c7 # rest \<Rightarrow>
          [c1, c2, c3, c4] = str ''172.'' \<and>
          ((a = of_char (CHR ''1'') \<and> b \<in> set (str ''6789'')) \<or>
           (a = of_char (CHR ''2'') \<and> b \<in> set (str ''0123456789'')) \<or>
           (a = of_char (CHR ''3'') \<and> b \<in> set (str ''01''))) \<and>
          c7 = of_char (CHR ''.'')
      | _ \<Rightarrow> False)"

definition privateHosts :: "(jstring \<Rightarrow> bool) list" where
  "privateHosts =
     [rx_localhost,
      prefix (str ''127.''),
      prefix (str ''10.''),
      prefix (str ''192.168.''),
      rx_172,
      (\<lambda>h. h = str ''::1'')]"

definition isValidUrl :: "platform \<Rightarrow> jsval \<Rightarrow> bool" where
  "isValidUrl P url =
     (case new_URL P url of
        None \<Rightarrow> False
      | Some u \<Rightarrow>
          if protocol u \<notin> set [str ''http:'', str ''https:''] then False
          else \<not> list_ex (\<lambda>r. r (hostname u)) privateHosts)"

definition finalMessage :: "jsval \<Rightarrow> jsval" where
  \<comment> \<open>\<open>message || description || ""\<close> of the destructured body\<close>
  "finalMessage b =
     js_or (js_or (field b (str ''message'')) (field b (str ''description''))) (JStr [])"

definition body_or_empty :: "jsval \<Rightarrow> jsval" where
  \<comment> \<open>\<open>req.body || {}\<close>\<close>
  "body_or_empty body = js_or body (JObj [])"

definition name_invalid :: "jsval \<Rightarrow> bool option" where
  \<comment> \<open>\<open>!name || name.trim().length < 2 || name.length > 100\<close>; \<open>None\<close> when
      \<open>name.trim\<close> is not a function, which is a TypeError\<close>
  "name_invalid name =
     (if \<not> truthy name then Some True
      else case name of
             JStr s \<Rightarrow> Some (length (trim s) < 2 \<or> 100 < length s)
           | _ \<Rightarrow> None)"

definition message_too_long :: "platform \<Rightarrow> jsval \<Rightarrow> bool option" where
  \<comment> \<open>\<open>finalMessage && finalMessage.length > 500\<close>\<close>
  "message_too_long P m =
     (if \<not> truthy m then Some False else greater P (js_length m) 500)"

definition validateContactRequest :: "platform \<Rightarrow> jsval \<Rightarrow> outcome" where
  "validateContactRequest P body =
     (let b = body_or_empty body in
      case name_invalid (field b (str ''name'')) of
        None \<Rightarrow> Throw
      | Some True \<Rightarrow> json_error 400 (str ''Invalid name'')
      | Some False \<Rightarrow>
          if \<not> isValidEmail (field b (str ''email''))
          then json_error 400 (str ''Invalid email'')
          else if \<not> isValidUrl P (field b (str ''url''))
          then json_error 400 (str ''Invalid URL'')
          else case message_too_long P (finalMessage b) of
                 None \<Rightarrow> Throw
               | Some True \<Rightarrow> json_error 400 (str ''Message too long'')
               | Some False \<Rightarrow> Next)"

section \<open>Validation (src/unnamed/part_000)\<close>

definition privatePatterns_p0 :: "(jstring \<Rightarrow> bool) list" where
  "privatePatterns_p0 =
     [rx_localhost,
      (\<lambda>h. h = str ''127.0.0.1''),
      (\<lambda>h. h = str ''::1''),
      prefix (str ''192.168.''),
      prefix (str ''10.''),
      rx_172]"

definition isValidUrl_p0 :: "platform \<Rightarrow> jsval \<Rightarrow> bool" where
  "isValidUrl_p0 P url =
     (case new_URL P url of
        None \<Rightarrow> False
      | Some parsed \<Rightarrow>
          if protocol parsed \<notin> set [str ''http:'', str ''https:''] then False
          else if list_ex (\<lambda>pattern. pattern (hostname parsed)) privatePatterns_p0 then False
          else True)"

definition validateContactRequest_p0 :: "platform \<Rightarrow> jsval \<Rightarrow> outcome" where
  \<comment> \<open>the first test is \<open>!name || typeof name !== "string" || name.trim().length < 2\<close>,
      the last \<open>finalMessage && typeof finalMessage === "string"\<close> and the length\<close>
  "validateContactRequest_p0 P body =
     (let b = body_or_empty body; name = field b (str ''name''); m = finalMessage b in
      if (if truthy name then (case name of JStr s \<Rightarrow> length (trim s) < 2 | _ \<Rightarrow> True)
          else True)
      then json_error 400 (str ''Name must be at least 2 characters'')
      else if (case name of JStr s \<Rightarrow> 100 < length s | _ \<Rightarrow> False)
      then json_error 400 (str ''Name must be less than 100 characters'')
      else if \<not> isValidEmail (field b (str ''email''))
      then json_error 400 (str ''Valid email is required'')
      else if \<not> isValidUrl_p0 P (field b (str ''url''))
      then json_error 400 (str ''Valid web application URL is required'')
      else if truthy m \<and> (case m of JStr s \<Rightarrow> 500 < length s | _ \<Rightarrow> False)
      then json_error 400 (str ''Message must be less than 500 characters'')
      else Next)"

section \<open>Requests, configuration and the mail relay\<close>

datatype http_method = GET | HEAD | POST | OPTIONS | OtherMethod

record js_error =
  err_message :: jstring
  err_status :: "nat option"

text \<open>
  What \<open>express.json({ limit: "10kb" })\<close> makes of a request: it refuses the body and
  passes an error on (400 for malformed JSON, 413 for a body over the limit), or it sets
  \<open>req.body\<close>. In its strict mode the body is an object or an array, and \<open>{}\<close> for a
  request without a JSON body.
\<close>

datatype parsed = Refused js_error | Parsed jsval

text \<open>
  A request as it arrives: \<open>req_ip\<close> is \<open>req.ip\<close>, \<open>req_path\<close> is \<open>req.path\<close>, the
  three headers are \<open>None\<close> when absent, \<open>req_json\<close> is what the body parser will make
  of the body, and \<open>req_time\<close> is the clock when the request is handled, in milliseconds.
\<close>

record request =
  req_method :: http_method
  req_path :: jstring
  req_origin :: "jstring option"
  req_xff :: "jstring option"
  req_user_agent :: "jstring option"
  req_ip :: jstring
  req_json :: parsed
  req_time :: nat

record env =
  SMTP_HOST :: "jstring option"
  SMTP_PORT :: "jstring option"
  SMTP_SECURE :: "jstring option"
  SMTP_USER :: "jstring option"
  SMTP_PASS :: "jstring option"
  TO_EMAIL :: "jstring option"
  FROM_EMAIL :: "jstring option"
  NODE_ENV :: "jstring option"

definition unset :: "jstring option \<Rightarrow> bool" where
  \<comment> \<open>\<open>!process.env.X\<close>: the variable is absent or empty\<close>
  "unset v = (case v of None \<Rightarrow> True | Some s \<Rightarrow> s = [])"

definition or_else :: "jstring option \<Rightarrow> jstring \<Rightarrow> jstring" where
  \<comment> \<open>\<open>v || d\<close> for a string or \<open>undefined\<close>\<close>
  "or_else v d = (if unset v then d else the v)"

text \<open>
  The options of \<open>createTransport\<close> (\<open>port_arg\<close> is the argument of \<open>Number\<close>) and
  the message of \<open>sendMail\<close>.
\<close>

record transport =
  host :: jstring
  port_arg :: jstring
  secure :: bool
  auth_user :: jstring
  auth_pass :: jstring
  connectionTimeout :: nat
  socketTimeout :: nat

record mail =
  mail_from :: jstring
  mail_to :: jstring
  replyTo :: jstring
  subject :: jstring
  mail_text :: jstring
  mail_headers :: "(jstring \<times> jstring) list"

text \<open>
  The relay is the network: \<open>verify\<close> succeeds or throws (\<open>False\<close>), \<open>sendMail\<close>
  returns the message's identifier or throws (\<open>None\<close>). Every call made to it is
  recorded, in order.
\<close>

record relay =
  verify :: "transport \<Rightarrow> bool"
  sendMail :: "transport \<Rightarrow> mail \<Rightarrow> jstring option"

datatype relay_call = Verify transport | SendMail transport mail

definition createTransport :: "env \<Rightarrow> transport" where
  "createTransport e =
     \<lparr>host = or_else (SMTP_HOST e) [],
      port_arg = or_else (SMTP_PORT e) (str ''587''),
      secure = (SMTP_SECURE e = Some (str ''true'')),
      auth_user = or_else (SMTP_USER e) [],
      auth_pass = or_else (SMTP_PASS e) [],
      connectionTimeout = 5000,
      socketTimeout = 5000\<rparr>"

definition env_missing :: "env \<Rightarrow> bool" where
  "env_missing e =
     (unset (SMTP_HOST e) \<or> unset (SMTP_USER e) \<or> unset (SMTP_PASS e) \<or> unset (TO_EMAIL e))"

section \<open>The two sanitizers\<close>

text \<open>
  \<open>app.use(xss())\<close> and \<open>app.use(mongoSanitize())\<close> stand between the body parser and
  every route; the packages xss-clean and express-mongo-sanitize are not among the
  repository's files. xss-clean writes the body as JSON text, replaces every \<open><\<close> in it
  by \<open>&lt;\<close> and parses the text again, so every \<open><\<close> in a string or in a key is
  replaced; express-mongo-sanitize deletes, at every depth, the keys that match
  \<open>/^\$|\./\<close>. Both leave a falsy \<open>req.body\<close> alone. \<open>xss\<close> and
  \<open>mongoSanitize\<close> say what the two do to the objects and arrays that the body parser
  yields, and to the values inside them.
\<close>

definition escape_lt :: "jstring \<Rightarrow> jstring" where
  "escape_lt s = concat (map (\<lambda>c. if c = of_char (CHR ''<'') then str ''&lt;'' else [c]) s)"

primrec xss :: "jsval \<Rightarrow> jsval" where
  "xss JUndefined = JUndefined"
| "xss JNull = JNull"
| "xss (JBool b) = JBool b"
| "xss (JNum q) = JNum q"
| "xss (JStr s) = JStr (escape_lt s)"
| "xss (JArr xs) = JArr (map xss xs)"
| "xss (JObj kvs) = JObj (map (map_prod escape_lt xss) kvs)"

definition forbidden_key :: "jstring \<Rightarrow> bool" where
  \<comment> \<open>\<open>/^\$|\./\<close>\<close>
  "forbidden_key k = (prefix (str ''$'') k \<or> of_char (CHR ''.'') \<in> set k)"

primrec mongoSanitize :: "jsval \<Rightarrow> jsval" where
  "mongoSanitize JUndefined = JUndefined"
| "mongoSanitize JNull = JNull"
| "mongoSanitize (JBool b) = JBool b"
| "mongoSanitize (JNum q) = JNum q"
| "mongoSanitize (JStr s) = JStr s"
| "mongoSanitize (JArr xs) = JArr (map mongoSanitize xs)"
| "mongoSanitize (JObj kvs) =
     JObj (filter (\<lambda>kv. \<not> forbidden_key (fst kv)) (map (map_prod id mongoSanitize) kvs))"

definition sanitized :: "jsval \<Rightarrow> jsval" where
  \<comment> \<open>\<open>req.body\<close> as the routes see it\<close>
  "sanitized body =
     (let cleaned = (if truthy body then xss body else body)
      in if truthy cleaned then mongoSanitize cleaned else cleaned)"

section \<open>The contact handler (src/server.js)\<close>

definition getClientIp :: "request \<Rightarrow> jstring" where
  "getClientIp req =
     (if unset (req_xff req) then req_ip req
      else trim (takeWhile (\<lambda>c. c \<noteq> of_char (CHR '','')) (the (req_xff req))))"

definition sanitizedName :: "jstring \<Rightarrow> jstring" where
  "sanitizedName name = substring0 100 (trim name)"

definition sanitizedEmail :: "platform \<Rightarrow> jstring \<Rightarrow> jstring" where
  "sanitizedEmail P email = toLowerCase P (trim email)"

definition sanitizedMessage :: "jstring \<Rightarrow> jstring" where
  "sanitizedMessage m = (if m \<noteq> [] then substring0 500 (trim m) else [])"

definition emailBody ::
  "platform \<Rightarrow> request \<Rightarrow> jsval \<Rightarrow> jstring \<Rightarrow> jstring \<Rightarrow> jstring \<Rightarrow> jstring" where
  \<comment> \<open>\<open>filter(Boolean)\<close> drops \<open>null\<close> and the empty line\<close>
  "emailBody P req url sname semail smsg =
     join_nl (filter (\<lambda>l. l \<noteq> [])
       [str ''Name: '' @ sname,
        str ''Email: '' @ semail,
        str ''Web App URL: '' @ template P url,
        (if smsg \<noteq> [] then str ''Message: '' @ smsg else []),
        [],
        str ''---- META ----'',
        str ''IP Address: '' @ getClientIp req,
        str ''User-Agent: '' @ or_else (req_user_agent req) (str ''Unknown''),
        str ''Submitted At: '' @ toISOString P (req_time req)])"

definition as_string :: "jsval \<Rightarrow> jstring option" where
  \<comment> \<open>the receiver of a string method: a value that is not a string has no
      \<open>trim\<close> or \<open>toLowerCase\<close>, and the call throws\<close>
  "as_string v = (case v of JStr s \<Rightarrow> Some s | _ \<Rightarrow> None)"

definition send :: "relay \<Rightarrow> transport \<Rightarrow> mail \<Rightarrow> response \<Rightarrow> response \<Rightarrow> outcome \<times> relay_call list" where
  \<comment> \<open>the \<open>try\<close> block: verify, then send; any failure is the \<open>catch\<close> response\<close>
  "send R t m ok failed =
     (if \<not> verify R t then (Respond failed, [Verify t])
      else case sendMail R t m of
             None \<Rightarrow> (Respond failed, [Verify t, SendMail t m])
           | Some info \<Rightarrow> (Respond ok, [Verify t, SendMail t m]))"

definition contact_handler ::
  "platform \<Rightarrow> env \<Rightarrow> relay \<Rightarrow> request \<Rightarrow> jsval \<Rightarrow> outcome \<times> relay_call list" where
  \<comment> \<open>\<open>b\<close> is \<open>req.body\<close>\<close>
  "contact_handler P e R req b =
     (let fm = finalMessage b in
      if b = JUndefined \<or> b = JNull then (Throw, [])
      else
        case (as_string (field b (str ''name'')), as_string (field b (str ''email'')),
              if truthy fm then as_string fm else Some []) of
          (Some name, Some email, Some m) \<Rightarrow>
            let sname = sanitizedName name; semail = sanitizedEmail P email;
                smsg = sanitizedMessage m
            in
              if env_missing e
              then (json_error 500 (str ''Email not configured''), [])
              else
                send R (createTransport e)
                  \<lparr>mail_from = or_else (FROM_EMAIL e) (or_else (SMTP_USER e) []),
                   mail_to = or_else (TO_EMAIL e) [],
                   replyTo = semail,
                   subject = str ''[Jalwan] New Contact from '' @ sname,
                   mail_text = emailBody P req (field b (str ''url'')) sname semail smsg,
                   mail_headers =
                     [(str ''X-Client-IP'', getClientIp req),
                      (str ''X-Mailer'', str ''Jalwan Contact API'')]\<rparr>
                  \<lparr>status = 200, payload = Json [(str ''success'', JBool True)]\<rparr>
                  \<lparr>status = 503,
                   payload = Json [(str ''error'', JStr (str ''Unable to send message''))]\<rparr>
        | _ \<Rightarrow> (Throw, []))"

section \<open>The contact handler (src/unnamed/part_000)\<close>

definition sanitizedEmail_p0 :: "platform \<Rightarrow> jstring \<Rightarrow> jstring" where
  "sanitizedEmail_p0 P email = trim (toLowerCase P email)"

definition body_p0 :: "platform \<Rightarrow> jsval \<Rightarrow> jstring \<Rightarrow> jstring \<Rightarrow> jstring \<Rightarrow> jstring" where
  "body_p0 P url sname semail smsg =
     join_nl (filter (\<lambda>l. l \<noteq> [])
       [str ''Name: '' @ sname,
        str ''Email: '' @ semail,
        str ''Web App URL: '' @ template P url,
        (if smsg \<noteq> [] then str ''Message: '' @ smsg else [])])"

definition contact_handler_p0 ::
  "platform \<Rightarrow> env \<Rightarrow> relay \<Rightarrow> request \<Rightarrow> jsval \<Rightarrow> outcome \<times> relay_call list" where
  "contact_handler_p0 P e R req b =
     (let fm = finalMessage b in
      if b = JUndefined \<or> b = JNull then (Throw, [])
      else
        case (as_string (field b (str ''name'')), as_string (field b (str ''email'')),
              if truthy fm then as_string fm else Some []) of
          (Some name, Some email, Some m) \<Rightarrow>
            let sname = sanitizedName name; semail = sanitizedEmail_p0 P email;
                smsg = sanitizedMessage m
            in
              if env_missing e
              then (json_error 500 (str ''Email service not configured''), [])
              else
                send R (createTransport e)
                  \<lparr>mail_from = or_else (FROM_EMAIL e) (or_else (SMTP_USER e) []),
                   mail_to = or_else (TO_EMAIL e) [],
                   replyTo = semail,
                   subject = str ''[Jalwan] New Pentest Request from '' @ sname,
                   mail_text = body_p0 P (field b (str ''url'')) sname semail smsg,
                   mail_headers = [(str ''X-Mailer'', str ''Jalwan Contact API'')]\<rparr>
                  \<lparr>status = 200,
                   payload = Json [(str ''success'', JBool True),
                                   (str ''message'', JStr (str ''Request received successfully''))]\<rparr>
                  \<lparr>status = 503,
                   payload = Json [(str ''error'',
                     JStr (str ''Unable to process request, please try again later''))]\<rparr>
        | _ \<Rightarrow> (Throw, []))"

section \<open>The rate limiter\<close>

text \<open>
  Modelled from the spec: \<open>rateLimit\<close> of the package express-rate-limit is not among
  the repository's files; only its options are. The spec's algorithm is a fixed-window
  counter per key: look up or create the key's window; if the current time is outside the
  stored window, reset the count to 0 and set a new window start; increment the count; if
  the count exceeds the maximum, fail with 429 and do not proceed. A window that started
  at \<open>w\<close> holds the times from \<open>w\<close> up to, but not including, \<open>w + windowMs\<close>.
  A request the \<open>skip\<close> option selects is passed on uncounted. The key is \<open>req.ip\<close>
  and the message is the package's default where the options name none.
\<close>

record limiter_options =
  windowMs :: nat
  max_hits :: nat
  limit_message :: jstring

type_synonym store = "jstring \<Rightarrow> (nat \<times> nat) option"

definition in_window :: "limiter_options \<Rightarrow> nat \<Rightarrow> nat \<Rightarrow> bool" where
  \<comment> \<open>Modelled from the spec: express-rate-limit is missing; the current time is
      inside the stored window\<close>
  "in_window opts start now = (start \<le> now \<and> now < start + windowMs opts)"

definition current_window :: "limiter_options \<Rightarrow> store \<Rightarrow> jstring \<Rightarrow> nat \<Rightarrow> nat \<times> nat" where
  \<comment> \<open>Modelled from the spec: express-rate-limit is missing; look up or create the
      key's window, and reset it when the current time is outside\<close>
  "current_window opts s k now =
     (case s k of
        None \<Rightarrow> (now, 0)
      | Some (start, n) \<Rightarrow> if in_window opts start now then (start, n) else (now, 0))"

definition hit :: "limiter_options \<Rightarrow> store \<Rightarrow> jstring \<Rightarrow> nat \<Rightarrow> store \<times> bool" where
  \<comment> \<open>Modelled from the spec: express-rate-limit is missing; increment the count and
      tell whether it exceeds the maximum\<close>
  "hit opts s k now =
     (case current_window opts s k now of
        (start, n) \<Rightarrow> (s(k \<mapsto> (start, Suc n)), max_hits opts < Suc n))"

definition rateLimit ::
  "limiter_options \<Rightarrow> (request \<Rightarrow> jstring) \<Rightarrow> (request \<Rightarrow> bool) \<Rightarrow> store \<Rightarrow> request \<Rightarrow> store \<times> outcome" where
  \<comment> \<open>Modelled from the spec: the middleware \<open>rateLimit(options)\<close> of
      express-rate-limit is missing; a request over the limit gets 429 with the message
      and goes no further\<close>
  "rateLimit opts keyGenerator skip s req =
     (if skip req then (s, Next)
      else case hit opts s (keyGenerator req) (req_time req) of
             (s', over) \<Rightarrow>
               (s', if over then Respond \<lparr>status = 429, payload = Text (limit_message opts)\<rparr>
                    else Next))"

definition serve ::
  "(store \<Rightarrow> request \<Rightarrow> store \<times> outcome) \<Rightarrow> store \<Rightarrow> request list \<Rightarrow> store" where
  \<comment> \<open>the store after a limiter has handled the requests, in order\<close>
  "serve limiter s rs = fold (\<lambda>r s'. fst (limiter s' r)) rs s"

definition default_message :: jstring where
  \<comment> \<open>Modelled from the spec: the message of a limiter whose options name none; the
      spec asks for human-readable retry guidance, this is the package's text\<close>
  "default_message = str ''Too many requests, please try again later.''"

definition globalLimiter :: "store \<Rightarrow> request \<Rightarrow> store \<times> outcome" where
  "globalLimiter =
     rateLimit \<lparr>windowMs = 15 * 60 * 1000, max_hits = 5, limit_message = default_message\<rparr>
       req_ip (\<lambda>req. req_path req = str ''/health'')"

definition contactLimiter :: "store \<Rightarrow> request \<Rightarrow> store \<times> outcome" where
  "contactLimiter =
     rateLimit \<lparr>windowMs = 60 * 60 * 1000, max_hits = 3,
                limit_message = str ''Too many contact requests, try again in 1 hour''\<rparr>
       getClientIp (\<lambda>req. False)"

definition limiter_p0 :: "store \<Rightarrow> request \<Rightarrow> store \<times> outcome" where
  "limiter_p0 =
     rateLimit \<lparr>windowMs = 15 * 60 * 1000, max_hits = 5,
                limit_message = str ''Too many requests, please try again later''\<rparr>
       req_ip (\<lambda>req. req_path req = str ''/health'')"

definition contactLimiter_p0 :: "store \<Rightarrow> request \<Rightarrow> store \<times> outcome" where
  "contactLimiter_p0 =
     rateLimit \<lparr>windowMs = 60 * 60 * 1000, max_hits = 3,
                limit_message = str ''Too many contact requests, please try again in an hour''\<rparr>
       (\<lambda>req. or_else (req_xff req) (req_ip req)) (\<lambda>req. False)"

section \<open>The origin guard and the error middleware\<close>

definition allowedOrigins :: "jstring list" where
  "allowedOrigins =
     [str ''https://jalwan.app'', str ''https://www.jalwan.app'',
      str ''http://localhost:3000'', str ''http://localhost:3001'']"

definition cors_error :: js_error where
  \<comment> \<open>\<open>new Error("CORS policy violation")\<close>\<close>
  "cors_error = \<lparr>err_message = str ''CORS policy violation'', err_status = None\<rparr>"

definition type_error :: js_error where
  \<comment> \<open>the TypeError of calling what is not a function, with the engine's message\<close>
  "type_error = \<lparr>err_message = str ''name.trim is not a function'', err_status = None\<rparr>"

definition corsOptions_origin :: "jstring option \<Rightarrow> js_error option" where
  \<comment> \<open>the \<open>origin\<close> callback of both files: \<open>None\<close> is \<open>callback(null, true)\<close>,
      \<open>Some err\<close> is \<open>callback(err)\<close>\<close>
  "corsOptions_origin origin =
     (if unset origin then None
      else if the origin \<in> set allowedOrigins then None
      else Some cors_error)"

definition error_middleware :: "js_error \<Rightarrow> outcome" where
  "error_middleware err =
     (if err_message err = str ''CORS policy violation''
      then json_error 403 (str ''CORS blocked'')
      else json_error 500 (str ''Internal server error''))"

definition error_middleware_p0 :: "env \<Rightarrow> js_error \<Rightarrow> outcome" where
  "error_middleware_p0 e err =
     (if err_message err = str ''CORS policy violation''
      then json_error 403 (str ''CORS policy violation'')
      else json_error (case err_status err of None \<Rightarrow> 500 | Some n \<Rightarrow> if n = 0 then 500 else n)
             (if NODE_ENV e = Some (str ''production'') then str ''Internal server error''
              else err_message err))"

section \<open>The application\<close>

text \<open>
  The middleware chain of both files, in the order of their \<open>app.use\<close> calls: the origin
  guard (the cors package passes the callback's error to the error middleware, and answers
  an OPTIONS request itself with \<open>optionsSuccessStatus\<close>, 204 unless set), the body
  parser (an error of its goes to the error middleware), the two sanitizers, the global
  limiter, the two routes and the 404 handler. helmet only sets response headers, which
  the model does not carry. Express matches a route's path without regard to case and
  with or without a slash at the end, and lets a GET route answer HEAD. An exception
  thrown by the synchronous validator goes to the error middleware; one thrown inside the
  asynchronous handler rejects its promise and is the outcome \<open>Throw\<close>.
\<close>

record server_state =
  global_store :: store
  contact_store :: store

definition route_matches :: "string \<Rightarrow> jstring \<Rightarrow> bool" where
  \<comment> \<open>the route \<open>/health\<close> is the pattern \<open>/^\/health\/?$/i\<close>\<close>
  "route_matches route path =
     (map canonicalize path = map canonicalize (str route) \<or>
      map canonicalize path = map canonicalize (str route @ str ''/''))"

definition health :: "platform \<Rightarrow> request \<Rightarrow> outcome" where
  \<comment> \<open>\<open>res.json({ status: "ok", time: new Date().toISOString() })\<close>\<close>
  "health P req =
     Respond \<lparr>status = 200,
              payload = Json [(str ''status'', JStr (str ''ok'')),
                              (str ''time'', JStr (toISOString P (req_time req)))]\<rparr>"

definition health_p0 :: "platform \<Rightarrow> request \<Rightarrow> outcome" where
  "health_p0 P req =
     Respond \<lparr>status = 200,
              payload = Json [(str ''status'', JStr (str ''ok'')),
                              (str ''timestamp'', JStr (toISOString P (req_time req)))]\<rparr>"

definition contact_stages ::
  "platform \<Rightarrow> env \<Rightarrow> relay \<Rightarrow> request \<Rightarrow> jsval \<Rightarrow> outcome \<times> relay_call list" where
  \<comment> \<open>\<open>validateContactRequest\<close>, then the handler\<close>
  "contact_stages P e R req b =
     (case validateContactRequest P b of
        Respond r \<Rightarrow> (Respond r, [])
      | Throw \<Rightarrow> (error_middleware type_error, [])
      | Next \<Rightarrow> contact_handler P e R req b)"

definition contact_route ::
  "platform \<Rightarrow> env \<Rightarrow> relay \<Rightarrow> server_state \<Rightarrow> request \<Rightarrow> jsval \<Rightarrow>
     server_state \<times> outcome \<times> relay_call list" where
  \<comment> \<open>\<open>app.post("/contact", contactLimiter, validateContactRequest, handler)\<close>\<close>
  "contact_route P e R st req b =
     (case contactLimiter (contact_store st) req of
        (c, Respond r) \<Rightarrow> (st\<lparr>contact_store := c\<rparr>, Respond r, [])
      | (c, _) \<Rightarrow> (st\<lparr>contact_store := c\<rparr>, contact_stages P e R req b))"

definition routes ::
  "platform \<Rightarrow> env \<Rightarrow> relay \<Rightarrow> server_state \<Rightarrow> request \<Rightarrow> jsval \<Rightarrow>
     server_state \<times> outcome \<times> relay_call list" where
  \<comment> \<open>\<open>app.use(globalLimiter)\<close>, the two routes and the 404 handler\<close>
  "routes P e R st req b =
     (case globalLimiter (global_store st) req of
        (g, Respond r) \<Rightarrow> (st\<lparr>global_store := g\<rparr>, Respond r, [])
      | (g, _) \<Rightarrow>
          if (req_method req = GET \<or> req_method req = HEAD) \<and>
             route_matches ''/health'' (req_path req)
          then (st\<lparr>global_store := g\<rparr>, health P req, [])
          else if req_method req = POST \<and> route_matches ''/contact'' (req_path req)
          then contact_route P e R (st\<lparr>global_store := g\<rparr>) req b
          else (st\<lparr>global_store := g\<rparr>, json_error 404 (str ''Endpoint not found''), []))"

definition app ::
  "platform \<Rightarrow> env \<Rightarrow> relay \<Rightarrow> server_state \<Rightarrow> request \<Rightarrow> server_state \<times> outcome \<times> relay_call list" where
  "app P e R st req =
     (case corsOptions_origin (req_origin req) of
        Some err \<Rightarrow> (st, error_middleware err, [])
      | None \<Rightarrow>
          if req_method req = OPTIONS then (st, Respond \<lparr>status = 204, payload = Empty\<rparr>, [])
          else
            (case req_json req of
               Refused err \<Rightarrow> (st, error_middleware err, [])
             | Parsed body \<Rightarrow> routes P e R st req (sanitized body)))"

definition contact_stages_p0 ::
  "platform \<Rightarrow> env \<Rightarrow> relay \<Rightarrow> request \<Rightarrow> jsval \<Rightarrow> outcome \<times> relay_call list" where
  "contact_stages_p0 P e R req b =
     (case validateContactRequest_p0 P b of
        Respond r \<Rightarrow> (Respond r, [])
      | Throw \<Rightarrow> (error_middleware_p0 e type_error, [])
      | Next \<Rightarrow> contact_handler_p0 P e R req b)"

definition contact_route_p0 ::
  "platform \<Rightarrow> env \<Rightarrow> relay \<Rightarrow> server_state \<Rightarrow> request \<Rightarrow> jsval \<Rightarrow>
     server_state \<times> outcome \<times> relay_call list" where
  "contact_route_p0 P e R st req b =
     (case contactLimiter_p0 (contact_store st) req of
        (c, Respond r) \<Rightarrow> (st\<lparr>contact_store := c\<rparr>, Respond r, [])
      | (c, _) \<Rightarrow> (st\<lparr>contact_store := c\<rparr>, contact_stages_p0 P e R req b))"

definition routes_p0 ::
  "platform \<Rightarrow> env \<Rightarrow> relay \<Rightarrow> server_state \<Rightarrow> request \<Rightarrow> jsval \<Rightarrow>
     server_state \<times> outcome \<times> relay_call list" where
  "routes_p0 P e R st req b =
     (case limiter_p0 (global_store st) req of
        (g, Respond r) \<Rightarrow> (st\<lparr>global_store := g\<rparr>, Respond r, [])
      | (g, _) \<Rightarrow>
          if (req_method req = GET \<or> req_method req = HEAD) \<and>
             route_matches ''/health'' (req_path req)
          then (st\<lparr>global_store := g\<rparr>, health_p0 P req, [])
          else if req_method req = POST \<and> route_matches ''/contact'' (req_path req)
          then contact_route_p0 P e R (st\<lparr>global_store := g\<rparr>) req b
          else (st\<lparr>global_store := g\<rparr>, json_error 404 (str ''Endpoint not found''), []))"

definition app_p0 ::
  "platform \<Rightarrow> env \<Rightarrow> relay \<Rightarrow> server_state \<Rightarrow> request \<Rightarrow> server_state \<times> outcome \<times> relay_call list" where
  "app_p0 P e R st req =
     (case corsOptions_origin (req_origin req) of
        Some err \<Rightarrow> (st, error_middleware_p0 e err, [])
      | None \<Rightarrow>
          if req_method req = OPTIONS then (st, Respond \<lparr>status = 200, payload = Empty\<rparr>, [])
          else
            (case req_json req of
               Refused err \<Rightarrow> (st, error_middleware_p0 e err, [])
             | Parsed body \<Rightarrow> routes_p0 P e R st req (sanitized body)))"

text \<open>
  A submission that reaches the validator: a POST to the contact route that the origin
  guard permits, whose body the parser accepts and that neither limiter rejects.
\<close>

definition passes_guards :: "server_state \<Rightarrow> request \<Rightarrow> bool" where
  "passes_guards st req =
     (req_method req = POST \<and> route_matches ''/contact'' (req_path req) \<and>
      corsOptions_origin (req_origin req) = None \<and>
      (case req_json req of Parsed body \<Rightarrow> True | Refused err \<Rightarrow> False) \<and>
      snd (globalLimiter (global_store st) req) = Next \<and>
      snd (contactLimiter (contact_store st) req) = Next)"

definition passes_guards_p0 :: "server_state \<Rightarrow> request \<Rightarrow> bool" where
  "passes_guards_p0 st req =
     (req_method req = POST \<and> route_matches ''/contact'' (req_path req) \<and>
      corsOptions_origin (req_origin req) = None \<and>
      (case req_json req of Parsed body \<Rightarrow> True | Refused err \<Rightarrow> False) \<and>
      snd (limiter_p0 (global_store st) req) = Next \<and>
      snd (contactLimiter_p0 (contact_store st) req) = Next)"

section \<open>Sample inputs\<close>

text \<open>
  Concrete inputs for evaluating the model. \<open>sample_platform\<close> answers \<open>new URL\<close>
  as Node.js does on the few strings listed (the WHATWG serialisation writes an IPv6 host
  in brackets) and throws on every other input.
\<close>

definition sample_urls :: "(jsval \<times> url) list" where
  "sample_urls =
     [(JStr (str ''https://app.example.com''),
         \<lparr>protocol = str ''https:'', hostname = str ''app.example.com''\<rparr>),
      (JStr (str ''https://example.com''),
         \<lparr>protocol = str ''https:'', hostname = str ''example.com''\<rparr>),
      (JStr (str ''ftp://example.com''),
         \<lparr>protocol = str ''ftp:'', hostname = str ''example.com''\<rparr>),
      (JStr (str ''http://127.0.0.2/''),
         \<lparr>protocol = str ''http:'', hostname = str ''127.0.0.2''\<rparr>),
      (JStr (str ''http://[::1]/''),
         \<lparr>protocol = str ''http:'', hostname = str ''[::1]''\<rparr>),
      (JStr (str ''https://172.20.0.1/''),
         \<lparr>protocol = str ''https:'', hostname = str ''172.20.0.1''\<rparr>)]"

definition sample_platform :: platform where
  "sample_platform =
     \<lparr>new_URL = map_of sample_urls,
      to_string = (\<lambda>v. str ''[object Object]''),
      js_gt = (\<lambda>v n. Some False),
      toISOString = (\<lambda>t. str ''2024-05-01T12:00:00.000Z''),
      lower_wide = (\<lambda>s. s)\<rparr>"

definition sample_env :: env where
  "sample_env =
     \<lparr>SMTP_HOST = Some (str ''smtp.example.net''), SMTP_PORT = None, SMTP_SECURE = None,
      SMTP_USER = Some (str ''mailer''), SMTP_PASS = Some (str ''secret''),
      TO_EMAIL = Some (str ''owner@example.net''), FROM_EMAIL = None, NODE_ENV = None\<rparr>"

definition sample_relay :: relay where
  "sample_relay = \<lparr>verify = (\<lambda>t. True), sendMail = (\<lambda>t m. Some (str ''<id-1>''))\<rparr>"

definition fresh_state :: server_state where
  "fresh_state = \<lparr>global_store = Map.empty, contact_store = Map.empty\<rparr>"

definition sample_body :: jsval where
  "sample_body =
     JObj [(str ''name'', JStr (str ''Jo Smith'')), (str ''email'', JStr (str ''jo@example.com'')),
           (str ''url'', JStr (str ''https://app.example.com'')),
           (str ''message'', JStr (str ''Please review''))]"

definition sample_request :: request where
  "sample_request =
     \<lparr>req_method = POST, req_path = str ''/contact'', req_origin = Some (str ''https://jalwan.app''),
      req_xff = None, req_user_agent = Some (str ''curl/8.5.0''), req_ip = str ''203.0.113.7'',
      req_json = Parsed sample_body, req_time = 0\<rparr>"

definition sample_at :: "nat \<Rightarrow> request" where
  \<comment> \<open>the sample request, arriving at the given time\<close>
  "sample_at t = sample_request\<lparr>req_time := t\<rparr>"

definition other_request :: request where
  \<comment> \<open>a request of another client\<close>
  "other_request = sample_request\<lparr>req_ip := str ''198.51.100.9''\<rparr>"

definition health_request :: request where
  \<comment> \<open>a call to the health route that names no origin and has no body\<close>
  "health_request =
     \<lparr>req_method = GET, req_path = str ''/health'', req_origin = None, req_xff = None,
      req_user_agent = Some (str ''curl/8.5.0''), req_ip = str ''203.0.113.7'',
      req_json = Parsed (JObj []), req_time = 0\<rparr>"

section \<open>Facts about strings, trimming and lower-casing\<close>

lemma str_eq_iff [simp]: "str a = str b \<longleftrightarrow> a = b"
  by (simp add: str_def inj_map_eq_map inj_on_def)

lemma str_Nil [simp]: "str [] = []"
  by (simp add: str_def)

lemma str_eq_Nil [simp]: "str s = [] \<longleftrightarrow> s = []"
  by (simp add: str_def)

lemma Nil_eq_str [simp]: "[] = str s \<longleftrightarrow> s = []"
  by (simp add: str_def)

lemma length_str [simp]: "length (str s) = length s"
  by (simp add: str_def)

lemma str_append: "str (a @ b) = str a @ str b"
  by (simp add: str_def)

lemma str_Cons: "str (c # s) = of_char c # str s"
  by (simp add: str_def)

lemma narrow_str: "narrow (str s)"
  by (simp add: narrow_def str_def list_all_iff)

lemma lower_unit_idem: "lower_unit (lower_unit n) = lower_unit n"
  by (auto simp: lower_unit_def is_upper_def)

lemma is_space_lower_unit: "is_space (lower_unit n) = is_space n"
  by (auto simp: lower_unit_def is_upper_def is_space_def)

lemma narrow_lower: "narrow s \<Longrightarrow> narrow (map lower_unit s)"
  by (auto simp: narrow_def list_all_iff lower_unit_def is_upper_def)

lemma trim_Nil_or_ends:
  "trim s = [] \<or> (\<not> is_space (hd (trim s)) \<and> \<not> is_space (last (trim s)))"
proof (cases "trim s = []")
  case True
  then show ?thesis by simp
next
  case False
  let ?d = "dropWhile is_space s"
  let ?r = "dropWhile is_space (rev ?d)"
  from False have r: "?r \<noteq> []" by (simp add: trim_def)
  then have d: "?d \<noteq> []" by (metis dropWhile.simps(1) rev.simps(1))
  have last_ok: "\<not> is_space (last (trim s))"
    using hd_dropWhile [OF r] r by (simp add: trim_def last_rev)
  have "hd (trim s) = last ?r" using r by (simp add: trim_def hd_rev)
  also have "\<dots> = last (rev ?d)"
    using r by (metis last_appendR takeWhile_dropWhile_id)
  also have "\<dots> = hd ?d" using d by (simp add: last_rev)
  finally have "hd (trim s) = hd ?d" .
  with hd_dropWhile [OF d] last_ok show ?thesis by simp
qed

lemma trim_fixed:
  assumes "t = [] \<or> (\<not> is_space (hd t) \<and> \<not> is_space (last t))"
  shows "trim t = t"
proof (cases "t = []")
  case True
  then show ?thesis by (simp add: trim_def)
next
  case False
  with assms have h: "\<not> is_space (hd t)" and l: "\<not> is_space (last t)" by auto
  from False h have "dropWhile is_space t = t" by (simp add: dropWhile_eq_self_iff)
  moreover from False l have "dropWhile is_space (rev t) = rev t"
    by (simp add: dropWhile_eq_self_iff hd_rev)
  ultimately show ?thesis by (simp add: trim_def)
qed

lemma trim_idem: "trim (trim s) = trim s"
  using trim_Nil_or_ends [of s] by (rule trim_fixed)

lemma trim_no_space_ends:
  "s \<noteq> [] \<Longrightarrow> \<not> is_space (hd s) \<Longrightarrow> \<not> is_space (last s) \<Longrightarrow> trim s = s"
  by (rule trim_fixed) simp

lemma trim_no_space:
  assumes "list_all (\<lambda>c. \<not> is_space c) s"
  shows "trim s = s"
proof (cases "s = []")
  case True
  then show ?thesis by (simp add: trim_def)
next
  case False
  then have "hd s \<in> set s" "last s \<in> set s" by simp_all
  with assms have "\<not> is_space (hd s)" "\<not> is_space (last s)"
    by (simp_all add: list_all_iff)
  with False show ?thesis by (simp add: trim_no_space_ends)
qed

lemma length_trim_le: "length (trim s) \<le> length s"
proof -
  have "length (trim s) \<le> length (dropWhile is_space s)"
    unfolding trim_def using length_dropWhile_le [of is_space "rev (dropWhile is_space s)"] by simp
  also have "\<dots> \<le> length s" by (rule length_dropWhile_le)
  finally show ?thesis .
qed

lemma set_trim: "set (trim s) \<subseteq> set s"
proof -
  have "set (trim s) \<subseteq> set (dropWhile is_space s)"
    unfolding trim_def using set_dropWhileD [of _ is_space "rev (dropWhile is_space s)"] by auto
  also have "\<dots> \<subseteq> set s" using set_dropWhileD [of _ is_space s] by auto
  finally show ?thesis .
qed

lemma narrow_trim: "narrow s \<Longrightarrow> narrow (trim s)"
  using set_trim [of s] by (auto simp: narrow_def list_all_iff)

lemma trim_map_lower: "trim (map lower_unit s) = map lower_unit (trim s)"
proof -
  have c: "is_space \<circ> lower_unit = is_space" by (rule ext) (simp add: is_space_lower_unit)
  show ?thesis
    by (simp add: trim_def dropWhile_map rev_map c)
qed

text \<open>
  Lower-casing a string of code units below 256 is the unit-wise map: it is idempotent
  and commutes with trimming, without any assumption on the runtime.
\<close>

lemma toLowerCase_narrow: "narrow s \<Longrightarrow> toLowerCase P s = map lower_unit s"
  by (simp add: toLowerCase_def)

lemma toLowerCase_idem_narrow:
  "narrow s \<Longrightarrow> toLowerCase P (toLowerCase P s) = toLowerCase P s"
  by (simp add: toLowerCase_narrow narrow_lower lower_unit_idem)

lemma trim_toLowerCase_narrow:
  "narrow s \<Longrightarrow> trim (toLowerCase P s) = toLowerCase P (trim s)"
  by (simp add: toLowerCase_narrow narrow_trim trim_map_lower)

section \<open>The e-mail pattern\<close>

text \<open>
  \<open>email_regex\<close> computes what the pattern \<open>/^[^\s@]+@[^\s@]+\.[^\s@]+$/\<close> says:
  the whole string is a non-empty run of the class, an at sign, a non-empty run, a dot
  and a non-empty run.
\<close>

lemma dot_email_char: "email_char (of_char (CHR ''.''))"
  by (simp add: email_char_def is_space_def)

lemma at_not_email_char: "\<not> email_char (of_char (CHR ''@''))"
  by (simp add: email_char_def)

lemma at_not_space: "\<not> is_space (of_char (CHR ''@''))"
  by (simp add: is_space_def)

lemma email_regex_iff:
  "email_regex s \<longleftrightarrow>
     (\<exists>a b c. s = a @ str ''@'' @ b @ str ''.'' @ c \<and> a \<noteq> [] \<and> b \<noteq> [] \<and> c \<noteq> [] \<and>
        list_all email_char a \<and> list_all email_char b \<and> list_all email_char c)"
proof
  assume m: "email_regex s"
  let ?a = "takeWhile email_char s"
  let ?at = "of_char (CHR ''@'') :: nat"
  let ?dot = "of_char (CHR ''.'') :: nat"
  from m have a: "?a \<noteq> []"
    by (simp add: email_regex_def Let_def)
  from m obtain d where r: "dropWhile email_char s = ?at # d"
    and d: "list_all email_char d" and dot: "?dot \<in> set (butlast (tl d))"
    by (auto simp: email_regex_def Let_def split: list.splits)
  from dot obtain u v where uv: "butlast (tl d) = u @ ?dot # v"
    by (meson split_list)
  then have tl_ne: "tl d \<noteq> []" by auto
  then obtain x where x: "d = x # tl d" by (cases d) auto
  have tl_d: "tl d = u @ ?dot # v @ [last (tl d)]"
    using append_butlast_last_id [OF tl_ne] uv by simp
  have s: "s = ?a @ str ''@'' @ (x # u) @ str ''.'' @ (v @ [last (tl d)])"
    using takeWhile_dropWhile_id [of email_char s] r x tl_d by (simp add: str_def)
  have all_a: "list_all email_char ?a"
    by (simp add: list_all_iff) (meson set_takeWhileD)
  have "list_all email_char (x # u @ ?dot # v @ [last (tl d)])"
    using d x tl_d by simp
  then have all_b: "list_all email_char (x # u)" and all_c: "list_all email_char (v @ [last (tl d)])"
    by simp_all
  from s a all_a all_b all_c show "\<exists>a b c. s = a @ str ''@'' @ b @ str ''.'' @ c \<and> a \<noteq> [] \<and>
      b \<noteq> [] \<and> c \<noteq> [] \<and> list_all email_char a \<and> list_all email_char b \<and> list_all email_char c"
    by blast
next
  let ?at = "of_char (CHR ''@'') :: nat"
  let ?dot = "of_char (CHR ''.'') :: nat"
  assume "\<exists>a b c. s = a @ str ''@'' @ b @ str ''.'' @ c \<and> a \<noteq> [] \<and> b \<noteq> [] \<and> c \<noteq> [] \<and>
      list_all email_char a \<and> list_all email_char b \<and> list_all email_char c"
  then obtain a b c where s: "s = a @ ?at # b @ ?dot # c"
    and ne: "a \<noteq> []" "b \<noteq> []" "c \<noteq> []"
    and ok: "list_all email_char a" "list_all email_char b" "list_all email_char c"
    by (auto simp: str_def)
  have tw: "takeWhile email_char s = a"
    using ok(1) at_not_email_char by (simp add: s list_all_iff)
  have dw: "dropWhile email_char s = ?at # b @ ?dot # c"
    using ok(1) at_not_email_char by (simp add: s list_all_iff)
  obtain b0 bs where b: "b = b0 # bs" using ne(2) by (cases b) auto
  have "butlast (tl (b @ ?dot # c)) = bs @ ?dot # butlast c"
    using ne(3) by (simp add: b butlast_append)
  then have dot: "?dot \<in> set (butlast (tl (b @ ?dot # c)))"
    by simp
  show "email_regex s"
    using ne(1) ok dot dot_email_char
    by (simp add: email_regex_def tw dw)
qed

lemma email_regex_no_space:
  assumes "email_regex s"
  shows "list_all (\<lambda>c. \<not> is_space c) s"
proof -
  from assms obtain a b c where s: "s = a @ str ''@'' @ b @ str ''.'' @ c"
    and ok: "list_all email_char a" "list_all email_char b" "list_all email_char c"
    unfolding email_regex_iff by blast
  have e: "list_all (\<lambda>c. \<not> is_space c) x" if "list_all email_char x" for x
    using that by (simp add: list_all_iff email_char_def)
  have "\<not> is_space (of_char (CHR ''.''))"
    by (simp add: is_space_def)
  then show ?thesis
    using e [OF ok(1)] e [OF ok(2)] e [OF ok(3)] at_not_space
    by (simp add: s str_def)
qed

section \<open>The two sanitizers of the request body\<close>

lemma escape_lt_Nil [simp]: "escape_lt [] = []"
  by (simp add: escape_lt_def)

lemma escape_lt_Cons:
  "escape_lt (c # s) = (if c = of_char (CHR ''<'') then str ''&lt;'' else [c]) @ escape_lt s"
  by (simp add: escape_lt_def)

lemma escape_lt_append: "escape_lt (a @ b) = escape_lt a @ escape_lt b"
  by (simp add: escape_lt_def)

lemma escape_lt_eq_Nil [simp]: "escape_lt s = [] \<longleftrightarrow> s = []"
  by (cases s) (simp_all add: escape_lt_Cons)

lemma escape_lt_id: "of_char (CHR ''<'') \<notin> set s \<Longrightarrow> escape_lt s = s"
  by (induction s) (simp_all add: escape_lt_Cons)

lemma of_char_in_str: "(of_char c :: nat) \<in> set (str s) \<longleftrightarrow> c \<in> set s"
  by (auto simp: str_def)

lemma escape_lt_str: "CHR ''<'' \<notin> set s \<Longrightarrow> escape_lt (str s) = str s"
  by (rule escape_lt_id) (simp only: of_char_in_str not_False_eq_True)

lemma length_escape_lt:
  "length (escape_lt s) = length s + 3 * count_list s (of_char (CHR ''<''))"
  by (induction s) (simp_all add: escape_lt_Cons)

lemma amp_in_escape_lt:
  "of_char (CHR ''<'') \<in> set s \<Longrightarrow> of_char (CHR ''&'') \<in> set (escape_lt s)"
  by (induction s) (auto simp: escape_lt_Cons str_def)

lemma escape_lt_eq_iff:
  assumes "of_char (CHR ''&'') \<notin> set k" and "of_char (CHR ''<'') \<notin> set k"
  shows "escape_lt k' = k \<longleftrightarrow> k' = k"
proof
  assume e: "escape_lt k' = k"
  have "of_char (CHR ''<'') \<notin> set k'"
    using amp_in_escape_lt [of k'] assms(1) e by auto
  then show "k' = k" using e by (simp add: escape_lt_id)
next
  assume "k' = k"
  then show "escape_lt k' = k" using assms(2) by (simp add: escape_lt_id)
qed

text \<open>White space is not rewritten, and what is written for \<open><\<close> has none: escaping
  and trimming commute.\<close>

lemma dropWhile_space_escape_lt:
  "dropWhile is_space (escape_lt s) = escape_lt (dropWhile is_space s)"
proof (induction s)
  case Nil
  then show ?case by simp
next
  case (Cons c s)
  have lt: "\<not> is_space (of_char (CHR ''<''))" and amp: "\<not> is_space (of_char (CHR ''&''))"
    by (simp_all add: is_space_def)
  show ?case
  proof (cases "is_space c")
    case True
    then have "c \<noteq> of_char (CHR ''<'')" using lt by auto
    then show ?thesis using True Cons by (simp add: escape_lt_Cons)
  next
    case False
    then show ?thesis using amp by (simp add: escape_lt_Cons str_def)
  qed
qed

lemma trim_sandwich:
  assumes "list_all is_space a" and "list_all is_space b"
      and "t = [] \<or> (\<not> is_space (hd t) \<and> \<not> is_space (last t))"
  shows "trim (a @ t @ b) = t"
proof (cases "t = []")
  case True
  have d: "dropWhile is_space (a @ b) = []"
    using assms(1,2) by (simp only: dropWhile_eq_Nil_conv) (auto simp: list_all_iff)
  show ?thesis
    by (simp only: True trim_def append_Nil d dropWhile.simps rev.simps)
next
  case False
  with assms(3) have h: "\<not> is_space (hd t)" and l: "\<not> is_space (last t)" by simp_all
  have "dropWhile is_space (a @ (t @ b)) = dropWhile is_space (t @ b)"
    using assms(1) by (intro dropWhile_append2) (simp add: list_all_iff)
  also have "\<dots> = t @ b"
    using False h by (cases t) simp_all
  finally have 1: "dropWhile is_space (a @ t @ b) = t @ b" .
  have "dropWhile is_space (rev b @ rev t) = dropWhile is_space (rev t)"
    using assms(2) by (intro dropWhile_append2) (simp add: list_all_iff)
  also have "\<dots> = rev t"
    using False l by (simp add: dropWhile_eq_self_iff hd_rev)
  finally have 2: "dropWhile is_space (rev b @ rev t) = rev t" .
  show ?thesis by (simp only: trim_def 1 2 rev_append rev_rev_ident)
qed

lemma trim_decomposition:
  "\<exists>a b. s = a @ trim s @ b \<and> list_all is_space a \<and> list_all is_space b"
proof -
  let ?d = "dropWhile is_space s"
  have 1: "s = takeWhile is_space s @ ?d" by simp
  have "?d = rev (dropWhile is_space (rev ?d)) @ rev (takeWhile is_space (rev ?d))"
    by (metis rev_append rev_rev_ident takeWhile_dropWhile_id)
  then have 2: "?d = trim s @ rev (takeWhile is_space (rev ?d))"
    by (simp only: trim_def)
  have a: "list_all is_space (takeWhile is_space s)"
    by (simp add: list_all_iff) (meson set_takeWhileD)
  have b: "list_all is_space (rev (takeWhile is_space (rev ?d)))"
    by (simp add: list_all_iff) (meson set_takeWhileD)
  from 1 2 have "s = takeWhile is_space s @ trim s @ rev (takeWhile is_space (rev ?d))"
    by metis
  with a b show ?thesis by blast
qed

lemma escape_lt_spaces: "list_all is_space a \<Longrightarrow> escape_lt a = a"
  by (rule escape_lt_id) (auto simp: list_all_iff is_space_def)

lemma escape_lt_ends:
  assumes "t \<noteq> []" and "\<not> is_space (hd t)" and "\<not> is_space (last t)"
  shows "\<not> is_space (hd (escape_lt t)) \<and> \<not> is_space (last (escape_lt t))"
proof -
  obtain c u where t: "t = c # u" using assms(1) by (cases t) auto
  have h: "\<not> is_space (hd (escape_lt t))"
    using assms(2) by (simp add: t escape_lt_Cons str_def is_space_def)
  have e: "escape_lt t = escape_lt (butlast t) @ escape_lt [last t]"
    using escape_lt_append [of "butlast t" "[last t]"] assms(1) by simp
  have ne: "escape_lt [last t] \<noteq> []"
    by (simp only: escape_lt_eq_Nil) simp
  have "last (escape_lt t) = last (escape_lt [last t])"
    unfolding e using ne by (rule last_appendR)
  also have "\<not> is_space \<dots>"
    using assms(3) by (simp add: escape_lt_Cons str_def is_space_def)
  finally have l: "\<not> is_space (last (escape_lt t))" .
  from h l show ?thesis by (rule conjI)
qed

lemma trim_escape_lt: "trim (escape_lt s) = escape_lt (trim s)"
proof -
  obtain a b where s: "s = a @ trim s @ b" and a: "list_all is_space a" and b: "list_all is_space b"
    using trim_decomposition by blast
  have "escape_lt s = escape_lt (a @ trim s @ b)"
    by (rule arg_cong [OF s])
  also have "\<dots> = a @ escape_lt (trim s) @ b"
    by (simp add: escape_lt_append escape_lt_spaces a b)
  finally have e: "escape_lt s = a @ escape_lt (trim s) @ b" .
  have ends: "escape_lt (trim s) = [] \<or>
      (\<not> is_space (hd (escape_lt (trim s))) \<and> \<not> is_space (last (escape_lt (trim s))))"
  proof (cases "trim s = []")
    case True
    then show ?thesis by simp
  next
    case False
    with trim_Nil_or_ends [of s] escape_lt_ends [of "trim s"] show ?thesis by blast
  qed
  show ?thesis
    unfolding e by (rule trim_sandwich [OF a b ends])
qed

lemma member_of_map_key:
  assumes "\<And>k'. g k' = k \<longleftrightarrow> k' = k"
  shows "member_of (map (map_prod g f) kvs) k = map_option f (member_of kvs k)"
proof (induction kvs)
  case Nil
  then show ?case by simp
next
  case (Cons a kvs)
  obtain k' v where a: "a = (k', v)" by (cases a)
  show ?case by (cases "member_of kvs k") (simp_all add: a Cons assms)
qed

lemma member_of_map_val:
  "member_of (map (map_prod id f) kvs) k = map_option f (member_of kvs k)"
  by (rule member_of_map_key) simp

lemma member_of_filter:
  assumes "\<not> Q k"
  shows "member_of (filter (\<lambda>kv. \<not> Q (fst kv)) kvs) k = member_of kvs k"
proof (induction kvs)
  case Nil
  then show ?case by simp
next
  case (Cons a kvs)
  obtain k' v where a: "a = (k', v)" by (cases a)
  show ?case
  proof (cases "Q k'")
    case True
    with assms have "k' \<noteq> k" by auto
    then show ?thesis
      using True by (cases "member_of kvs k") (simp_all add: a Cons)
  next
    case False
    then show ?thesis by (cases "member_of kvs k") (simp_all add: a Cons)
  qed
qed

text \<open>
  A property whose key has no \<open>&\<close>, no \<open><\<close>, no dot and no \<open>$\<close> in front, such as
  the five the handlers read, reaches the routes under its own key, and its value is the
  posted value after the two sanitizers.
\<close>

lemma field_sanitized:
  assumes "of_char (CHR ''&'') \<notin> set k" and "of_char (CHR ''<'') \<notin> set k"
      and "\<not> forbidden_key k"
  shows "field (sanitized p) k = mongoSanitize (xss (field p k))"
proof (cases p)
  case (JObj kvs)
  have k: "escape_lt k' = k \<longleftrightarrow> k' = k" for k'
    by (rule escape_lt_eq_iff [OF assms(1,2)])
  have 1: "member_of (map (map_prod escape_lt xss) kvs) k = map_option xss (member_of kvs k)"
    by (rule member_of_map_key [OF k])
  have 2: "member_of (map (map_prod id mongoSanitize) l) k
      = map_option mongoSanitize (member_of l k)" for l
    by (rule member_of_map_val)
  have 3: "member_of (filter (\<lambda>kv. \<not> forbidden_key (fst kv)) l) k = member_of l k" for l
    by (rule member_of_filter [of forbidden_key, OF assms(3)])
  have s: "sanitized p = JObj (filter (\<lambda>kv. \<not> forbidden_key (fst kv))
      (map (map_prod id mongoSanitize) (map (map_prod escape_lt xss) kvs)))"
    by (simp add: JObj sanitized_def)
  have f: "field (sanitized p) k =
      (case map_option mongoSanitize (map_option xss (member_of kvs k)) of
         Some v \<Rightarrow> v | None \<Rightarrow> JUndefined)"
    by (simp only: s field.simps 1 2 3)
  show ?thesis
    unfolding f by (cases "member_of kvs k") (simp_all add: JObj)
next
  case (JStr s)
  then show ?thesis by (simp add: sanitized_def)
next
  case (JArr xs)
  then show ?thesis by (simp add: sanitized_def)
next
  case (JBool b)
  then show ?thesis by (simp add: sanitized_def)
next
  case (JNum q)
  then show ?thesis by (simp add: sanitized_def)
qed (simp_all add: sanitized_def)

lemma prefix_str: "prefix (str a) (str b) \<longleftrightarrow> prefix a b"
proof (induction a arbitrary: b)
  case Nil
  then show ?case by simp
next
  case (Cons c a)
  then show ?case by (cases b) (simp_all add: str_Cons)
qed

lemma forbidden_key_str:
  "forbidden_key (str k) = (prefix ''$'' k \<or> CHR ''.'' \<in> set k)"
  unfolding forbidden_key_def prefix_str of_char_in_str ..

lemma field_sanitized_str:
  assumes "CHR ''&'' \<notin> set k" and "CHR ''<'' \<notin> set k" and "\<not> prefix ''$'' k"
      and "CHR ''.'' \<notin> set k"
  shows "field (sanitized p) (str k) = mongoSanitize (xss (field p (str k)))"
  using assms by (intro field_sanitized) (simp_all only: of_char_in_str forbidden_key_str, simp_all)

lemma field_sanitized_handler:
  "field (sanitized p) (str ''name'') = mongoSanitize (xss (field p (str ''name'')))"
  "field (sanitized p) (str ''email'') = mongoSanitize (xss (field p (str ''email'')))"
  "field (sanitized p) (str ''url'') = mongoSanitize (xss (field p (str ''url'')))"
  "field (sanitized p) (str ''message'') = mongoSanitize (xss (field p (str ''message'')))"
  "field (sanitized p) (str ''description'') = mongoSanitize (xss (field p (str ''description'')))"
  by (rule field_sanitized_str; simp)+

lemma truthy_sanitizers: "truthy (mongoSanitize (xss v)) = truthy v"
  by (cases v) simp_all

lemma sanitized_object: "sanitized p = JUndefined \<longleftrightarrow> p = JUndefined"
  "sanitized p = JNull \<longleftrightarrow> p = JNull"
  by (cases p; simp add: sanitized_def)+

text \<open>A body of plain keys and strings without \<open><\<close> passes the two sanitizers unchanged.\<close>

lemma sanitized_sample_body: "sanitized sample_body = sample_body"
  by (simp add: sanitized_def sample_body_def escape_lt_str forbidden_key_str)


section \<open>The validator and values of any JSON type\<close>

lemma route_matches_exact: "route_matches r (str r)"
  by (simp add: route_matches_def)

lemma field_body_or_empty: "field (body_or_empty b) k = field b k"
  by (cases b) (simp_all add: body_or_empty_def js_or_def)

lemma finalMessage_body_or_empty: "finalMessage (body_or_empty b) = finalMessage b"
  by (simp add: finalMessage_def field_body_or_empty)

lemma validateContactRequest_p0_total: "validateContactRequest_p0 P body \<noteq> Throw"
  by (simp add: validateContactRequest_p0_def json_error_def Let_def)

text \<open>When each validator lets a body through.\<close>

lemma validateContactRequest_Next_iff:
  "validateContactRequest P b = Next \<longleftrightarrow>
     name_invalid (field b (str ''name'')) = Some False \<and> isValidEmail (field b (str ''email'')) \<and>
     isValidUrl P (field b (str ''url'')) \<and> message_too_long P (finalMessage b) = Some False"
  by (simp add: validateContactRequest_def Let_def field_body_or_empty finalMessage_body_or_empty
      json_error_def split: option.splits bool.splits)

lemma name_invalid_False_iff:
  "name_invalid n = Some False \<longleftrightarrow> (\<exists>s. n = JStr s \<and> 2 \<le> length (trim s) \<and> length s \<le> 100)"
proof (cases n)
  case (JStr s)
  have "s \<noteq> []" if "2 \<le> length (trim s)"
    using that length_trim_le [of s] by auto
  then show ?thesis by (auto simp: JStr name_invalid_def)
qed (simp_all add: name_invalid_def)

lemma validateContactRequest_p0_Next_iff:
  "validateContactRequest_p0 P b = Next \<longleftrightarrow>
     (\<exists>s. field b (str ''name'') = JStr s \<and> 2 \<le> length (trim s) \<and> length s \<le> 100) \<and>
     isValidEmail (field b (str ''email'')) \<and> isValidUrl_p0 P (field b (str ''url'')) \<and>
     (\<forall>m. finalMessage b = JStr m \<longrightarrow> length m \<le> 500)"
proof (cases "field b (str ''name'')")
  case (JStr s)
  have ne: "s \<noteq> []" if "2 \<le> length (trim s)"
    using that length_trim_le [of s] by auto
  have m: "(truthy (finalMessage b) \<and> (case finalMessage b of JStr s \<Rightarrow> 500 < length s | _ \<Rightarrow> False))
      \<longleftrightarrow> \<not> (\<forall>m. finalMessage b = JStr m \<longrightarrow> length m \<le> 500)"
    by (cases "finalMessage b") auto
  show ?thesis
    using ne
    by (auto simp: validateContactRequest_p0_def Let_def field_body_or_empty
        finalMessage_body_or_empty json_error_def JStr m simp del: not_all)
qed (simp_all add: validateContactRequest_p0_def Let_def field_body_or_empty json_error_def)

text \<open>
  Claim C4 (the validator is total over every JSON body: whatever the types of the
  fields, it answers with a 400 or accepts, and no exception reaches the error
  middleware). In src/server.js the name check calls \<open>name.trim()\<close> without testing the
  type: for the body \<open>{"name": 123}\<close> the validator throws, and the application answers
  with the generic 500 of the error middleware. The validator of src/unnamed/part_000
  tests \<open>typeof name\<close> first; it answers that body with the 400 of the name check, and
  it throws on no body at all.
\<close>

theorem validator_throws_on_non_string_name:
  "validateContactRequest P (JObj [(str ''name'', JNum 123)]) = Throw \<and>
   snd (app P e R \<lparr>global_store = Map.empty, contact_store = Map.empty\<rparr>
          \<lparr>req_method = POST, req_path = str ''/contact'', req_origin = None, req_xff = None,
           req_user_agent = None, req_ip = str ''203.0.113.7'',
           req_json = Parsed (JObj [(str ''name'', JNum 123)]), req_time = 0\<rparr>)
     = (json_error 500 (str ''Internal server error''), []) \<and>
   validateContactRequest_p0 P (JObj [(str ''name'', JNum 123)])
     = json_error 400 (str ''Name must be at least 2 characters'') \<and>
   (\<forall>body. validateContactRequest_p0 P body \<noteq> Throw)"
proof -
  have thrown: "validateContactRequest P (JObj [(str ''name'', JNum 123)]) = Throw"
    by (simp add: validateContactRequest_def body_or_empty_def js_or_def name_invalid_def)
  have answered: "validateContactRequest_p0 P (JObj [(str ''name'', JNum 123)])
      = json_error 400 (str ''Name must be at least 2 characters'')"
    by (simp add: validateContactRequest_p0_def body_or_empty_def js_or_def)
  have same: "sanitized (JObj [(str ''name'', JNum 123)]) = JObj [(str ''name'', JNum 123)]"
    by (simp add: sanitized_def escape_lt_str forbidden_key_str)
  have "snd (app P e R \<lparr>global_store = Map.empty, contact_store = Map.empty\<rparr>
          \<lparr>req_method = POST, req_path = str ''/contact'', req_origin = None, req_xff = None,
           req_user_agent = None, req_ip = str ''203.0.113.7'',
           req_json = Parsed (JObj [(str ''name'', JNum 123)]), req_time = 0\<rparr>)
     = (json_error 500 (str ''Internal server error''), [])"
    using thrown
    by (simp add: app_def routes_def corsOptions_origin_def unset_def globalLimiter_def
        rateLimit_def hit_def current_window_def contact_route_def contact_stages_def
        contactLimiter_def error_middleware_def type_error_def same route_matches_exact)
  with thrown answered validateContactRequest_p0_total show ?thesis
    by blast
qed

section \<open>URL validation\<close>

lemma no_pattern_127_0_0_2: "\<not> list_ex (\<lambda>r. r (str ''127.0.0.2'')) privatePatterns_p0"
  by (simp add: privatePatterns_p0_def rx_localhost_def rx_172_def prefix_str)
     (simp add: str_def canonicalize_def)

lemma pattern_127_0_0_2: "list_ex (\<lambda>r. r (str ''127.0.0.2'')) privateHosts"
  by (simp add: privateHosts_def prefix_str)

lemma no_pattern_bracketed_loopback:
  "\<not> list_ex (\<lambda>r. r (str ''[::1]'')) privateHosts \<and>
   \<not> list_ex (\<lambda>r. r (str ''[::1]'')) privatePatterns_p0"
  by (simp add: privateHosts_def privatePatterns_p0_def rx_localhost_def rx_172_def prefix_str)
     (simp add: str_def canonicalize_def)

lemma listed_hosts_match:
  assumes "h = str ''localhost'' \<or> h = str ''127.0.0.1'' \<or> h = str ''10.0.0.5'' \<or>
           h = str ''192.168.1.1'' \<or> h = str ''172.20.0.1''"
  shows "list_ex (\<lambda>r. r h) privateHosts \<and> list_ex (\<lambda>r. r h) privatePatterns_p0"
  using assms
proof (elim disjE)
  assume "h = str ''localhost''"
  then show ?thesis by (simp add: privateHosts_def privatePatterns_p0_def rx_localhost_def)
next
  assume "h = str ''127.0.0.1''"
  then show ?thesis by (simp add: privateHosts_def privatePatterns_p0_def prefix_str)
next
  assume "h = str ''10.0.0.5''"
  then show ?thesis by (simp add: privateHosts_def privatePatterns_p0_def prefix_str)
next
  assume "h = str ''192.168.1.1''"
  then show ?thesis by (simp add: privateHosts_def privatePatterns_p0_def prefix_str)
next
  assume "h = str ''172.20.0.1''"
  then show ?thesis by (simp add: privateHosts_def privatePatterns_p0_def rx_172_def str_def)
qed

text \<open>
  What both files do as the claim says: the five hosts the spec lists are refused under
  any scheme, a parse failure and a scheme other than http and https are refused,
  \<open>https://example.com\<close> is accepted, and in src/server.js an accepted URL has none of
  the patterns for a host name.
\<close>

lemma listed_hosts_rejected:
  assumes "new_URL P v = Some u"
      and "hostname u \<in> set [str ''localhost'', str ''127.0.0.1'', str ''10.0.0.5'',
                               str ''192.168.1.1'', str ''172.20.0.1'']"
  shows "\<not> isValidUrl P v \<and> \<not> isValidUrl_p0 P v"
proof -
  from assms(2) have "hostname u = str ''localhost'' \<or> hostname u = str ''127.0.0.1'' \<or>
      hostname u = str ''10.0.0.5'' \<or> hostname u = str ''192.168.1.1'' \<or>
      hostname u = str ''172.20.0.1''"
    by (simp only: list.set insert_iff empty_iff) simp
  from listed_hosts_match [OF this] assms(1) show ?thesis
    by (simp add: isValidUrl_def isValidUrl_p0_def)
qed

lemma public_host_accepted:
  assumes "new_URL P v = Some \<lparr>protocol = str ''https:'', hostname = str h\<rparr>"
      and "h = ''example.com'' \<or> h = ''app.example.com''"
  shows "isValidUrl P v \<and> isValidUrl_p0 P v"
proof -
  have "\<not> list_ex (\<lambda>r. r (str h)) privateHosts \<and> \<not> list_ex (\<lambda>r. r (str h)) privatePatterns_p0"
    using assms(2)
  proof
    assume "h = ''example.com''"
    then show ?thesis
      by (simp add: privateHosts_def privatePatterns_p0_def rx_localhost_def rx_172_def prefix_str)
         (simp add: str_def canonicalize_def)
  next
    assume "h = ''app.example.com''"
    then show ?thesis
      by (simp add: privateHosts_def privatePatterns_p0_def rx_localhost_def rx_172_def prefix_str)
         (simp add: str_def canonicalize_def)
  qed
  then show ?thesis
    using assms(1) by (simp add: isValidUrl_def isValidUrl_p0_def)
qed

lemma example_com_accepted:
  assumes "new_URL P v = Some \<lparr>protocol = str ''https:'', hostname = str ''example.com''\<rparr>"
  shows "isValidUrl P v \<and> isValidUrl_p0 P v"
  using public_host_accepted [OF assms] by simp

lemma other_scheme_rejected:
  assumes "new_URL P v = Some u" and "protocol u \<noteq> str ''http:''"
      and "protocol u \<noteq> str ''https:''"
  shows "\<not> isValidUrl P v \<and> \<not> isValidUrl_p0 P v"
  using assms by (simp add: isValidUrl_def isValidUrl_p0_def)

lemma parse_failure_rejected:
  assumes "new_URL P v = None"
  shows "\<not> isValidUrl P v \<and> \<not> isValidUrl_p0 P v"
  using assms by (simp add: isValidUrl_def isValidUrl_p0_def)

lemma isValidUrl_only_if:
  assumes "isValidUrl P v"
  shows "\<exists>u. new_URL P v = Some u \<and> (protocol u = str ''http:'' \<or> protocol u = str ''https:'') \<and>
           \<not> rx_localhost (hostname u) \<and> \<not> prefix (str ''127.'') (hostname u) \<and>
           \<not> prefix (str ''10.'') (hostname u) \<and> \<not> prefix (str ''192.168.'') (hostname u) \<and>
           \<not> rx_172 (hostname u) \<and> hostname u \<noteq> str ''::1''"
proof -
  from assms obtain u where u: "new_URL P v = Some u"
    by (auto simp: isValidUrl_def split: option.splits)
  from assms have p: "protocol u = str ''http:'' \<or> protocol u = str ''https:''"
    by (simp add: isValidUrl_def u split: if_splits)
  from assms p have "\<not> list_ex (\<lambda>r. r (hostname u)) privateHosts"
    by (simp add: isValidUrl_def u split: if_splits)
  then have "\<not> rx_localhost (hostname u) \<and> \<not> prefix (str ''127.'') (hostname u) \<and>
           \<not> prefix (str ''10.'') (hostname u) \<and> \<not> prefix (str ''192.168.'') (hostname u) \<and>
           \<not> rx_172 (hostname u) \<and> hostname u \<noteq> str ''::1''"
    by (simp add: privateHosts_def)
  with u p show ?thesis by blast
qed

text \<open>
  Claim C1 (validation of the URL succeeds only if it parses with scheme http or https
  and its host is not localhost, not a loopback address 127.x.x.x, not the IPv6 loopback
  ::1 and not an RFC1918 address). Two loopback hosts get through. The pattern of
  src/unnamed/part_000 for IPv4 loopback is \<open>/^127\.0\.0\.1$/\<close>, which matches that one
  address only: \<open>http://127.0.0.2/\<close> is accepted there, and refused by the
  \<open>/^127\./\<close> of src/server.js. And both files test the host name against
  \<open>/^::1$/\<close>, while the \<open>hostname\<close> of a parsed URL holds an IPv6 address in
  brackets: for \<open>http://[::1]/\<close> it is \<open>[::1]\<close>, no pattern matches, and both files
  accept the URL.
\<close>

theorem isValidUrl_accepts_loopback:
  assumes "new_URL P (JStr (str ''http://127.0.0.2/''))
             = Some \<lparr>protocol = str ''http:'', hostname = str ''127.0.0.2''\<rparr>"
      and "new_URL P (JStr (str ''http://[::1]/''))
             = Some \<lparr>protocol = str ''http:'', hostname = str ''[::1]''\<rparr>"
  shows "isValidUrl_p0 P (JStr (str ''http://127.0.0.2/'')) \<and>
         \<not> isValidUrl P (JStr (str ''http://127.0.0.2/'')) \<and>
         isValidUrl P (JStr (str ''http://[::1]/'')) \<and>
         isValidUrl_p0 P (JStr (str ''http://[::1]/''))"
  using assms no_pattern_127_0_0_2 pattern_127_0_0_2 no_pattern_bracketed_loopback
  by (simp add: isValidUrl_def isValidUrl_p0_def)

theorem isValidUrl_accepts_loopback_witness:
  "isValidUrl_p0 sample_platform (JStr (str ''http://127.0.0.2/'')) \<and>
   \<not> isValidUrl sample_platform (JStr (str ''http://127.0.0.2/'')) \<and>
   isValidUrl sample_platform (JStr (str ''http://[::1]/'')) \<and>
   isValidUrl_p0 sample_platform (JStr (str ''http://[::1]/''))"
  using isValidUrl_accepts_loopback [of sample_platform]
  by (simp add: sample_platform_def sample_urls_def)

section \<open>The contact pipeline\<close>

lemma app_passes_guards:
  assumes "passes_guards st req" and "req_json req = Parsed p"
  shows "snd (app P e R st req) = contact_stages P e R req (sanitized p)"
proof -
  obtain g where g: "globalLimiter (global_store st) req = (g, Next)"
    using assms(1) by (metis passes_guards_def prod.collapse)
  obtain c where c: "contactLimiter (contact_store st) req = (c, Next)"
    using assms(1) by (metis passes_guards_def prod.collapse)
  show ?thesis
    using assms by (simp add: passes_guards_def app_def routes_def contact_route_def g c)
qed

lemma app_p0_passes_guards:
  assumes "passes_guards_p0 st req" and "req_json req = Parsed p"
  shows "snd (app_p0 P e R st req) = contact_stages_p0 P e R req (sanitized p)"
proof -
  obtain g where g: "limiter_p0 (global_store st) req = (g, Next)"
    using assms(1) by (metis passes_guards_p0_def prod.collapse)
  obtain c where c: "contactLimiter_p0 (contact_store st) req = (c, Next)"
    using assms(1) by (metis passes_guards_p0_def prod.collapse)
  show ?thesis
    using assms by (simp add: passes_guards_p0_def app_p0_def routes_p0_def contact_route_p0_def g c)
qed

lemma listed_origin: "str ''https://jalwan.app'' \<in> set allowedOrigins"
  by (simp add: allowedOrigins_def)

lemma sample_with_body_passes_guards:
  "passes_guards fresh_state (sample_request\<lparr>req_json := Parsed b\<rparr>) \<and>
   passes_guards_p0 fresh_state (sample_request\<lparr>req_json := Parsed b\<rparr>)"
  using listed_origin
  by (simp add: passes_guards_def passes_guards_p0_def fresh_state_def sample_request_def
      corsOptions_origin_def unset_def globalLimiter_def limiter_p0_def
      contactLimiter_def contactLimiter_p0_def rateLimit_def hit_def current_window_def
      route_matches_exact)

lemma sample_passes_guards:
  "passes_guards fresh_state sample_request \<and> passes_guards_p0 fresh_state sample_request"
  using sample_with_body_passes_guards [of sample_body] by (simp add: sample_request_def)

lemma sample_email_valid: "isValidEmail (JStr (str ''jo@example.com''))"
  by (simp add: isValidEmail_def email_regex_def email_char_def is_space_def str_def)

lemma app_example_com_valid:
  assumes "new_URL P (JStr (str ''https://app.example.com''))
             = Some \<lparr>protocol = str ''https:'', hostname = str ''app.example.com''\<rparr>"
  shows "isValidUrl P (JStr (str ''https://app.example.com'')) \<and>
         isValidUrl_p0 P (JStr (str ''https://app.example.com''))"
  using public_host_accepted [OF assms] by simp

lemma sample_platform_url:
  "new_URL sample_platform (JStr (str ''https://app.example.com''))
     = Some \<lparr>protocol = str ''https:'', hostname = str ''app.example.com''\<rparr>"
  by (simp add: sample_platform_def sample_urls_def)

lemma trim_str:
  assumes "s \<noteq> []" and "\<not> is_space (of_char (hd s))" and "\<not> is_space (of_char (last s))"
  shows "trim (str s) = str s"
  using assms by (intro trim_no_space_ends) (simp_all add: str_def hd_map last_map)

lemma trim_Jo_Smith: "trim (str ''Jo Smith'') = str ''Jo Smith''"
  by (rule trim_str) (simp_all add: is_space_def)

lemma lower_sample_email: "toLowerCase P (str ''jo@example.com'') = str ''jo@example.com''"
  by (simp add: toLowerCase_narrow narrow_str) (simp add: str_def lower_unit_def is_upper_def)

lemma sanitized_sample:
  "sanitizedName (str ''Jo Smith'') = str ''Jo Smith'' \<and>
   sanitizedEmail P (str ''jo@example.com'') = str ''jo@example.com'' \<and>
   sanitizedEmail_p0 P (str ''jo@example.com'') = str ''jo@example.com'' \<and>
   sanitizedMessage (str ''Please review'') = str ''Please review''"
proof -
  have t: "trim (str ''jo@example.com'') = str ''jo@example.com''"
          "trim (str ''Please review'') = str ''Please review''"
    by (rule trim_str; simp add: is_space_def)+
  show ?thesis
    by (simp add: sanitizedName_def sanitizedEmail_def sanitizedEmail_p0_def sanitizedMessage_def
        substring0_def trim_Jo_Smith t lower_sample_email)
qed

lemma sample_body_valid:
  assumes "new_URL P (JStr (str ''https://app.example.com''))
             = Some \<lparr>protocol = str ''https:'', hostname = str ''app.example.com''\<rparr>"
  shows "validateContactRequest P sample_body = Next \<and>
         validateContactRequest_p0 P sample_body = Next"
  using app_example_com_valid [OF assms] sample_email_valid
  by (simp add: sample_body_def validateContactRequest_def validateContactRequest_p0_def
      body_or_empty_def js_or_def name_invalid_def trim_Jo_Smith finalMessage_def
      message_too_long_def greater_def)

lemma emailBody_first_line:
  "prefix (str ''Name: '' @ sname @ [10]) (emailBody P req url sname semail smsg) \<and>
   prefix (str ''Name: '' @ sname @ [10]) (body_p0 P url sname semail smsg)"
  by (simp add: emailBody_def body_p0_def)

subsection \<open>Missing mail configuration\<close>

text \<open>
  Whatever the request, a handler that finds a required setting unset makes no call to
  the relay; and it answers with the configuration error whenever the name, the address
  and the message it sanitizes first are strings.
\<close>

lemma contact_handler_no_call_without_config:
  assumes "env_missing e"
  shows "snd (contact_handler P e R req b) = [] \<and> snd (contact_handler_p0 P e R req b) = []"
  using assms
  by (simp add: contact_handler_def contact_handler_p0_def Let_def split: option.splits)

lemma contact_handler_config_error:
  assumes "env_missing e"
      and "field b (str ''name'') = JStr name"
      and "field b (str ''email'') = JStr email"
      and "finalMessage b = JStr m"
  shows "contact_handler P e R req b = (json_error 500 (str ''Email not configured''), []) \<and>
         contact_handler_p0 P e R req b
           = (json_error 500 (str ''Email service not configured''), [])"
proof -
  have "b \<noteq> JUndefined" "b \<noteq> JNull"
    using assms(2) by auto
  then show ?thesis
    using assms
    by (simp add: contact_handler_def contact_handler_p0_def Let_def as_string_def)
qed

text \<open>
  Claim C2 (with a required mail setting absent, every POST /contact that passes the
  origin, rate-limit and validation checks gets the 500 configuration error, and the
  relay is never called). The relay is indeed never called. But the validators of both
  files let a message that is not a string through (src/server.js compares its
  \<open>length\<close>, which is \<open>undefined\<close>, with 500; src/unnamed/part_000 checks the length of
  strings only), and both handlers call \<open>finalMessage.trim()\<close> before they look at the
  configuration. For the body below, with the message 5, that call throws: the body
  reaches the routes as it was posted, the request passes the guards and the validator,
  and with a setting missing it gets no configuration error from the handler.
\<close>

theorem config_check_not_reached:
  assumes "new_URL P (JStr (str ''https://app.example.com''))
             = Some \<lparr>protocol = str ''https:'', hostname = str ''app.example.com''\<rparr>"
      and "req_json req = Parsed b"
      and "b = JObj [(str ''name'', JStr (str ''Jo Smith'')),
                     (str ''email'', JStr (str ''jo@example.com'')),
                     (str ''url'', JStr (str ''https://app.example.com'')),
                     (str ''message'', JNum 5)]"
      and "passes_guards st req" and "passes_guards_p0 st req"
      and "env_missing e"
  shows "sanitized b = b \<and>
         validateContactRequest P b = Next \<and>
         contact_handler P e R req b = (Throw, []) \<and>
         snd (app P e R st req) = (Throw, []) \<and>
         validateContactRequest_p0 P b = Next \<and>
         contact_handler_p0 P e R req b = (Throw, []) \<and>
         snd (app_p0 P e R st req) = (Throw, [])"
proof -
  have s: "sanitized b = b"
    by (simp add: assms(3) sanitized_def escape_lt_str forbidden_key_str)
  have v: "validateContactRequest P b = Next"
    using app_example_com_valid [OF assms(1)] sample_email_valid
    by (simp add: assms(3) validateContactRequest_def body_or_empty_def js_or_def
        name_invalid_def trim_Jo_Smith finalMessage_def message_too_long_def greater_def)
  have v0: "validateContactRequest_p0 P b = Next"
    using app_example_com_valid [OF assms(1)] sample_email_valid
    by (simp add: assms(3) validateContactRequest_p0_def body_or_empty_def js_or_def
        trim_Jo_Smith finalMessage_def)
  have h: "contact_handler P e R req b = (Throw, [])"
    by (simp add: assms(3) contact_handler_def finalMessage_def js_or_def as_string_def)
  have h0: "contact_handler_p0 P e R req b = (Throw, [])"
    by (simp add: assms(3) contact_handler_p0_def finalMessage_def js_or_def as_string_def)
  have a: "snd (app P e R st req) = (Throw, [])"
    using app_passes_guards [OF assms(4) assms(2)] v h by (simp add: contact_stages_def s)
  have a0: "snd (app_p0 P e R st req) = (Throw, [])"
    using app_p0_passes_guards [OF assms(5) assms(2)] v0 h0 by (simp add: contact_stages_p0_def s)
  from s v v0 h h0 a a0 show ?thesis by simp
qed

theorem config_check_not_reached_witness:
  "env_missing (sample_env\<lparr>SMTP_HOST := None\<rparr>) \<and>
   passes_guards fresh_state
     (sample_request\<lparr>req_json := Parsed
        (JObj [(str ''name'', JStr (str ''Jo Smith'')),
               (str ''email'', JStr (str ''jo@example.com'')),
               (str ''url'', JStr (str ''https://app.example.com'')),
               (str ''message'', JNum 5)])\<rparr>) \<and>
   validateContactRequest sample_platform
     (JObj [(str ''name'', JStr (str ''Jo Smith'')),
            (str ''email'', JStr (str ''jo@example.com'')),
            (str ''url'', JStr (str ''https://app.example.com'')),
            (str ''message'', JNum 5)]) = Next \<and>
   snd (app sample_platform (sample_env\<lparr>SMTP_HOST := None\<rparr>) sample_relay fresh_state
     (sample_request\<lparr>req_json := Parsed
        (JObj [(str ''name'', JStr (str ''Jo Smith'')),
               (str ''email'', JStr (str ''jo@example.com'')),
               (str ''url'', JStr (str ''https://app.example.com'')),
               (str ''message'', JNum 5)])\<rparr>)) = (Throw, []) \<and>
   snd (app_p0 sample_platform (sample_env\<lparr>SMTP_HOST := None\<rparr>) sample_relay fresh_state
     (sample_request\<lparr>req_json := Parsed
        (JObj [(str ''name'', JStr (str ''Jo Smith'')),
               (str ''email'', JStr (str ''jo@example.com'')),
               (str ''url'', JStr (str ''https://app.example.com'')),
               (str ''message'', JNum 5)])\<rparr>)) = (Throw, [])"
proof -
  let ?b = "JObj [(str ''name'', JStr (str ''Jo Smith'')),
                  (str ''email'', JStr (str ''jo@example.com'')),
                  (str ''url'', JStr (str ''https://app.example.com'')),
                  (str ''message'', JNum 5)]"
  have b: "req_json (sample_request\<lparr>req_json := Parsed ?b\<rparr>) = Parsed ?b"
    by simp
  have g: "passes_guards fresh_state (sample_request\<lparr>req_json := Parsed ?b\<rparr>)"
    and g0: "passes_guards_p0 fresh_state (sample_request\<lparr>req_json := Parsed ?b\<rparr>)"
    using sample_with_body_passes_guards [of ?b] by simp_all
  have m: "env_missing (sample_env\<lparr>SMTP_HOST := None\<rparr>)"
    by (simp add: env_missing_def unset_def sample_env_def)
  show ?thesis
    using config_check_not_reached [OF sample_platform_url b refl g g0 m, of sample_relay] g m
    by simp
qed

subsection \<open>A complete submission\<close>

lemma sample_handler:
  assumes "\<not> env_missing e" and "verify R (createTransport e)"
      and "sendMail R (createTransport e) m \<noteq> None"
      and "m = \<lparr>mail_from = or_else (FROM_EMAIL e) (or_else (SMTP_USER e) []),
                 mail_to = or_else (TO_EMAIL e) [],
                 replyTo = str ''jo@example.com'',
                 subject = str ''[Jalwan] New Contact from '' @ str ''Jo Smith'',
                 mail_text = emailBody P req (JStr (str ''https://app.example.com''))
                               (str ''Jo Smith'') (str ''jo@example.com'') (str ''Please review''),
                 mail_headers =
                   [(str ''X-Client-IP'', getClientIp req),
                    (str ''X-Mailer'', str ''Jalwan Contact API'')]\<rparr>"
  shows "contact_handler P e R req sample_body =
           (Respond \<lparr>status = 200, payload = Json [(str ''success'', JBool True)]\<rparr>,
            [Verify (createTransport e), SendMail (createTransport e) m])"
  using assms(1,2,3) sanitized_sample [of P]
  by (auto simp: contact_handler_def sample_body_def finalMessage_def js_or_def
      as_string_def send_def assms(4) Let_def)

lemma sample_handler_p0:
  assumes "\<not> env_missing e" and "verify R (createTransport e)"
      and "sendMail R (createTransport e) m \<noteq> None"
      and "m = \<lparr>mail_from = or_else (FROM_EMAIL e) (or_else (SMTP_USER e) []),
                 mail_to = or_else (TO_EMAIL e) [],
                 replyTo = str ''jo@example.com'',
                 subject = str ''[Jalwan] New Pentest Request from '' @ str ''Jo Smith'',
                 mail_text = body_p0 P (JStr (str ''https://app.example.com''))
                               (str ''Jo Smith'') (str ''jo@example.com'') (str ''Please review''),
                 mail_headers = [(str ''X-Mailer'', str ''Jalwan Contact API'')]\<rparr>"
  shows "contact_handler_p0 P e R req sample_body =
           (Respond \<lparr>status = 200,
                     payload = Json [(str ''success'', JBool True),
                                     (str ''message'', JStr (str ''Request received successfully''))]\<rparr>,
            [Verify (createTransport e), SendMail (createTransport e) m])"
  using assms(1,2,3) sanitized_sample [of P]
  by (auto simp: contact_handler_p0_def sample_body_def finalMessage_def js_or_def
      as_string_def send_def assms(4) Let_def)

text \<open>
  Claim C3 (the submission of Jo Smith, with complete mail configuration and a relay that
  succeeds, gets 200 with \<open>success: true\<close>; exactly one message is handed to the relay;
  its reply-to is \<open>jo@example.com\<close> and its body has the line \<open>Name: Jo Smith\<close>). The
  calls to the relay are one \<open>verify\<close> and one \<open>sendMail\<close>, and the text of the message
  starts with that line. The request is a POST to the contact route with this body, which
  the origin guard permits and neither limiter rejects; the two sanitizers leave the body
  as it is. src/server.js answers with \<open>{success: true}\<close>, src/unnamed/part_000 adds a
  \<open>message\<close> to it.
\<close>

theorem end_to_end_submission:
  assumes "new_URL P (JStr (str ''https://app.example.com''))
             = Some \<lparr>protocol = str ''https:'', hostname = str ''app.example.com''\<rparr>"
      and "\<not> env_missing e"
      and "verify R (createTransport e)"
      and "\<forall>m. sendMail R (createTransport e) m \<noteq> None"
      and "req_json req = Parsed
             (JObj [(str ''name'', JStr (str ''Jo Smith'')),
                    (str ''email'', JStr (str ''jo@example.com'')),
                    (str ''url'', JStr (str ''https://app.example.com'')),
                    (str ''message'', JStr (str ''Please review''))])"
      and "passes_guards st req"
      and "passes_guards_p0 st req"
  shows "(\<exists>m. snd (app P e R st req) =
              (Respond \<lparr>status = 200, payload = Json [(str ''success'', JBool True)]\<rparr>,
               [Verify (createTransport e), SendMail (createTransport e) m]) \<and>
            replyTo m = str ''jo@example.com'' \<and>
            prefix (str ''Name: Jo Smith'' @ [10]) (mail_text m)) \<and>
         (\<exists>m. snd (app_p0 P e R st req) =
              (Respond \<lparr>status = 200,
                        payload = Json [(str ''success'', JBool True),
                                        (str ''message'', JStr (str ''Request received successfully''))]\<rparr>,
               [Verify (createTransport e), SendMail (createTransport e) m]) \<and>
            replyTo m = str ''jo@example.com'' \<and>
            prefix (str ''Name: Jo Smith'' @ [10]) (mail_text m))"
proof -
  have b: "req_json req = Parsed sample_body"
    using assms(5) by (simp add: sample_body_def)
  have valid: "validateContactRequest P sample_body = Next"
              "validateContactRequest_p0 P sample_body = Next"
    using sample_body_valid [OF assms(1)] by simp_all
  define m where "m =
    \<lparr>mail_from = or_else (FROM_EMAIL e) (or_else (SMTP_USER e) []),
     mail_to = or_else (TO_EMAIL e) [],
     replyTo = str ''jo@example.com'',
     subject = str ''[Jalwan] New Contact from '' @ str ''Jo Smith'',
     mail_text = emailBody P req (JStr (str ''https://app.example.com''))
                   (str ''Jo Smith'') (str ''jo@example.com'') (str ''Please review''),
     mail_headers =
       [(str ''X-Client-IP'', getClientIp req), (str ''X-Mailer'', str ''Jalwan Contact API'')]\<rparr>"
  define m0 where "m0 =
    \<lparr>mail_from = or_else (FROM_EMAIL e) (or_else (SMTP_USER e) []),
     mail_to = or_else (TO_EMAIL e) [],
     replyTo = str ''jo@example.com'',
     subject = str ''[Jalwan] New Pentest Request from '' @ str ''Jo Smith'',
     mail_text = body_p0 P (JStr (str ''https://app.example.com''))
                   (str ''Jo Smith'') (str ''jo@example.com'') (str ''Please review''),
     mail_headers = [(str ''X-Mailer'', str ''Jalwan Contact API'')]\<rparr>"
  have sent: "sendMail R (createTransport e) m \<noteq> None" "sendMail R (createTransport e) m0 \<noteq> None"
    using assms(4) by simp_all
  have h: "contact_handler P e R req sample_body =
      (Respond \<lparr>status = 200, payload = Json [(str ''success'', JBool True)]\<rparr>,
       [Verify (createTransport e), SendMail (createTransport e) m])"
    by (rule sample_handler [OF assms(2) assms(3) sent(1) m_def])
  have h0: "contact_handler_p0 P e R req sample_body =
      (Respond \<lparr>status = 200,
                payload = Json [(str ''success'', JBool True),
                                (str ''message'', JStr (str ''Request received successfully''))]\<rparr>,
       [Verify (createTransport e), SendMail (createTransport e) m0])"
    by (rule sample_handler_p0 [OF assms(2) assms(3) sent(2) m0_def])
  have a: "snd (app P e R st req) =
      (Respond \<lparr>status = 200, payload = Json [(str ''success'', JBool True)]\<rparr>,
       [Verify (createTransport e), SendMail (createTransport e) m])"
    using app_passes_guards [OF assms(6) b] valid(1) h
    by (simp add: contact_stages_def sanitized_sample_body)
  have a0: "snd (app_p0 P e R st req) =
      (Respond \<lparr>status = 200,
                payload = Json [(str ''success'', JBool True),
                                (str ''message'', JStr (str ''Request received successfully''))]\<rparr>,
       [Verify (createTransport e), SendMail (createTransport e) m0])"
    using app_p0_passes_guards [OF assms(7) b] valid(2) h0
    by (simp add: contact_stages_p0_def sanitized_sample_body)
  have r: "replyTo m = str ''jo@example.com''" "replyTo m0 = str ''jo@example.com''"
    by (simp_all add: m_def m0_def)
  have n: "str ''Name: Jo Smith'' = str ''Name: '' @ str ''Jo Smith''"
    by (simp add: str_def)
  have p: "prefix (str ''Name: Jo Smith'' @ [10]) (mail_text m)"
          "prefix (str ''Name: Jo Smith'' @ [10]) (mail_text m0)"
    using emailBody_first_line [of "str ''Jo Smith''" P req "JStr (str ''https://app.example.com'')"
        "str ''jo@example.com''" "str ''Please review''"]
    by (simp_all add: m_def m0_def n)
  from a r(1) p(1) have "\<exists>m. snd (app P e R st req) =
              (Respond \<lparr>status = 200, payload = Json [(str ''success'', JBool True)]\<rparr>,
               [Verify (createTransport e), SendMail (createTransport e) m]) \<and>
            replyTo m = str ''jo@example.com'' \<and>
            prefix (str ''Name: Jo Smith'' @ [10]) (mail_text m)"
    by blast
  moreover from a0 r(2) p(2) have "\<exists>m. snd (app_p0 P e R st req) =
              (Respond \<lparr>status = 200,
                        payload = Json [(str ''success'', JBool True),
                                        (str ''message'', JStr (str ''Request received successfully''))]\<rparr>,
               [Verify (createTransport e), SendMail (createTransport e) m]) \<and>
            replyTo m = str ''jo@example.com'' \<and>
            prefix (str ''Name: Jo Smith'' @ [10]) (mail_text m)"
    by blast
  ultimately show ?thesis by simp
qed

theorem end_to_end_submission_witness:
  "passes_guards fresh_state sample_request \<and> passes_guards_p0 fresh_state sample_request \<and>
   \<not> env_missing sample_env \<and>
   (\<exists>m. snd (app sample_platform sample_env sample_relay fresh_state sample_request) =
          (Respond \<lparr>status = 200, payload = Json [(str ''success'', JBool True)]\<rparr>,
           [Verify (createTransport sample_env), SendMail (createTransport sample_env) m]) \<and>
        replyTo m = str ''jo@example.com'' \<and>
        prefix (str ''Name: Jo Smith'' @ [10]) (mail_text m)) \<and>
   (\<exists>m. snd (app_p0 sample_platform sample_env sample_relay fresh_state sample_request) =
          (Respond \<lparr>status = 200,
                    payload = Json [(str ''success'', JBool True),
                                    (str ''message'', JStr (str ''Request received successfully''))]\<rparr>,
           [Verify (createTransport sample_env), SendMail (createTransport sample_env) m]) \<and>
        replyTo m = str ''jo@example.com'' \<and>
        prefix (str ''Name: Jo Smith'' @ [10]) (mail_text m))"
proof -
  have cfg: "\<not> env_missing sample_env"
    by (simp add: env_missing_def unset_def sample_env_def)
  have v: "verify sample_relay (createTransport sample_env)"
    by (simp add: sample_relay_def)
  have s: "\<forall>m. sendMail sample_relay (createTransport sample_env) m \<noteq> None"
    by (simp add: sample_relay_def)
  have b: "req_json sample_request = Parsed
             (JObj [(str ''name'', JStr (str ''Jo Smith'')),
                    (str ''email'', JStr (str ''jo@example.com'')),
                    (str ''url'', JStr (str ''https://app.example.com'')),
                    (str ''message'', JStr (str ''Please review''))])"
    by (simp add: sample_request_def sample_body_def)
  from sample_passes_guards have g: "passes_guards fresh_state sample_request"
    and g0: "passes_guards_p0 fresh_state sample_request" by simp_all
  show ?thesis
    using end_to_end_submission [OF sample_platform_url cfg v s b g g0] cfg g g0
    by simp
qed

section \<open>The sanitizer\<close>

text \<open>
  What the validators guarantee of the three values the handler sanitizes: the name has
  at most 100 and a message that is a string at most 500 code units, and the address has
  no white space.
\<close>

lemma validated_bounds:
  assumes "validateContactRequest P b = Next \<or> validateContactRequest_p0 P b = Next"
      and "field b (str ''name'') = JStr name"
      and "field b (str ''email'') = JStr email"
      and "finalMessage b = JStr m"
  shows "length name \<le> 100 \<and> length m \<le> 500 \<and> list_all (\<lambda>c. \<not> is_space c) email"
proof -
  have e: "isValidEmail (JStr email)"
    using assms(1,3)
    by (auto simp: validateContactRequest_Next_iff validateContactRequest_p0_Next_iff)
  then have 3: "list_all (\<lambda>c. \<not> is_space c) email"
    by (simp add: isValidEmail_def email_regex_no_space)
  have 1: "length name \<le> 100"
    using assms(1,2)
    by (auto simp: validateContactRequest_Next_iff validateContactRequest_p0_Next_iff
        name_invalid_False_iff)
  have 2: "length m \<le> 500"
    using assms(1)
  proof
    assume "validateContactRequest P b = Next"
    then have "message_too_long P (JStr m) = Some False"
      by (simp add: validateContactRequest_Next_iff assms(4))
    then show ?thesis
      by (cases "m = []") (simp_all add: message_too_long_def greater_def)
  next
    assume "validateContactRequest_p0 P b = Next"
    then show ?thesis
      by (simp add: validateContactRequest_p0_Next_iff assms(4))
  qed
  from 1 2 3 show ?thesis by simp
qed

text \<open>Within the bounds the cut changes nothing, and trimming twice is trimming once.\<close>

lemma sanitizedName_idem:
  assumes "length name \<le> 100"
  shows "sanitizedName (sanitizedName name) = sanitizedName name"
proof -
  have "length (trim name) \<le> 100" using assms length_trim_le [of name] by simp
  then show ?thesis by (simp add: sanitizedName_def substring0_def trim_idem)
qed

lemma sanitizedMessage_idem:
  assumes "length m \<le> 500"
  shows "sanitizedMessage (sanitizedMessage m) = sanitizedMessage m"
proof -
  have "length (trim m) \<le> 500" using assms length_trim_le [of m] by simp
  then show ?thesis by (simp add: sanitizedMessage_def substring0_def trim_idem)
qed

text \<open>
  Beyond the validators' bound the cut comes into play: a name of 101 code units, 99
  letters, a blank and a letter, is cut to 99 letters and a blank, and a second pass
  trims the blank. The validators keep such a name from the handler.
\<close>

lemma sanitizedName_beyond_bound:
  "sanitizedName (replicate 99 97 @ [32, 98]) = replicate 99 97 @ [32] \<and>
   sanitizedName (replicate 99 97 @ [32]) = replicate 99 97 \<and>
   length (replicate 99 (97::nat) @ [32, 98]) = 101"
proof -
  have s: "is_space 32" "\<not> is_space 97" "\<not> is_space 98"
    by (simp_all add: is_space_def)
  have "trim (replicate 99 97 @ [32, 98]) = replicate 99 97 @ [32, 98]"
    by (rule trim_no_space_ends) (simp_all add: s hd_append)
  then have 1: "sanitizedName (replicate 99 97 @ [32, 98]) = replicate 99 97 @ [32]"
    by (simp add: sanitizedName_def substring0_def)
  have "trim (replicate 99 97 @ [32]) = replicate 99 97"
    using trim_sandwich [of "[]" "[32]" "replicate 99 97"] s by (simp add: hd_replicate)
  then have 2: "sanitizedName (replicate 99 97 @ [32]) = replicate 99 97"
    by (simp add: sanitizedName_def substring0_def)
  from 1 2 show ?thesis by simp
qed

text \<open>
  An address of code units below 256, with or without white space: both orders of
  trimming and lower-casing are idempotent, whatever the runtime.
\<close>

lemma sanitizedEmail_idem_narrow:
  assumes "narrow email"
  shows "sanitizedEmail P (sanitizedEmail P email) = sanitizedEmail P email \<and>
         sanitizedEmail_p0 P (sanitizedEmail_p0 P email) = sanitizedEmail_p0 P email"
proof -
  define y where "y = map lower_unit (trim email)"
  have t: "narrow (trim email)" using assms by (rule narrow_trim)
  have n: "narrow y" unfolding y_def using t by (rule narrow_lower)
  have ty: "trim y = y"
    by (simp only: y_def trim_map_lower trim_idem)
  have ly: "map lower_unit y = y"
    by (simp add: y_def lower_unit_idem)
  have 1: "sanitizedEmail P email = y"
    by (simp add: sanitizedEmail_def y_def toLowerCase_narrow [OF t])
  have 2: "sanitizedEmail_p0 P email = y"
    by (simp add: sanitizedEmail_p0_def y_def toLowerCase_narrow [OF assms] trim_map_lower)
  have "sanitizedEmail P y = y"
    by (simp add: sanitizedEmail_def ty toLowerCase_narrow [OF n] ly)
  moreover have "sanitizedEmail_p0 P y = y"
    by (simp add: sanitizedEmail_p0_def toLowerCase_narrow [OF n] ly ty)
  ultimately show ?thesis by (simp add: 1 2)
qed

lemma narrow_lower_no_space:
  assumes "narrow email" and "list_all (\<lambda>c. \<not> is_space c) email"
  shows "toLowerCase P (toLowerCase P email) = toLowerCase P email \<and>
         list_all (\<lambda>c. \<not> is_space c) (toLowerCase P email)"
  using assms
  by (simp add: toLowerCase_narrow narrow_lower list_all_iff is_space_lower_unit
      lower_unit_idem)

text \<open>
  Claim C10 (the sanitizer is idempotent: sanitizing an already sanitized value gives the
  same value). The handler sanitizes what the validator let through: a name, an address
  and a message that are strings of any code units. For the name and the message,
  trimmed and cut to 100 and 500, sanitizing twice is sanitizing once. So it is for the
  address, trimmed and lower-cased in src/server.js, lower-cased and trimmed in
  src/unnamed/part_000, when all its code units are below 256; for an address with a
  code unit of 256 or more, where the runtime's case tables decide, it holds when
  lower-casing the address twice is lower-casing it once and leaves it without white space.
\<close>

theorem sanitizer_idempotent:
  assumes "validateContactRequest P b = Next \<or> validateContactRequest_p0 P b = Next"
      and "field b (str ''name'') = JStr name"
      and "field b (str ''email'') = JStr email"
      and "finalMessage b = JStr m"
      and "narrow email \<or>
           (toLowerCase P (toLowerCase P email) = toLowerCase P email \<and>
            list_all (\<lambda>c. \<not> is_space c) (toLowerCase P email))"
  shows "sanitizedName (sanitizedName name) = sanitizedName name \<and>
         sanitizedMessage (sanitizedMessage m) = sanitizedMessage m \<and>
         sanitizedEmail P (sanitizedEmail P email) = sanitizedEmail P email \<and>
         sanitizedEmail_p0 P (sanitizedEmail_p0 P email) = sanitizedEmail_p0 P email"
proof -
  from validated_bounds [OF assms(1-4)]
  have n: "length name \<le> 100" and m: "length m \<le> 500"
    and e: "list_all (\<lambda>c. \<not> is_space c) email"
    by simp_all
  have l: "toLowerCase P (toLowerCase P email) = toLowerCase P email"
    and s: "list_all (\<lambda>c. \<not> is_space c) (toLowerCase P email)"
    using assms(5) narrow_lower_no_space [OF _ e, of P] by blast+
  have t: "trim email = email" "trim (toLowerCase P email) = toLowerCase P email"
    using e s by (simp_all add: trim_no_space)
  have "sanitizedEmail P (sanitizedEmail P email) = sanitizedEmail P email"
    by (simp add: sanitizedEmail_def t l)
  moreover have "sanitizedEmail_p0 P (sanitizedEmail_p0 P email) = sanitizedEmail_p0 P email"
    by (simp add: sanitizedEmail_p0_def t l)
  ultimately show ?thesis
    using sanitizedName_idem [OF n] sanitizedMessage_idem [OF m] by simp
qed


text \<open>
  The sample submission with blanks around its name and its message passes both
  validators, and sanitizing its three values twice is sanitizing them once.
\<close>

theorem sanitizer_idempotent_witness:
  "validateContactRequest sample_platform
     (JObj [(str ''name'', JStr (str ''  Jo Smith '')),
            (str ''email'', JStr (str ''jo@example.com'')),
            (str ''url'', JStr (str ''https://app.example.com'')),
            (str ''message'', JStr (str '' Please review  ''))]) = Next \<and>
   narrow (str ''jo@example.com'') \<and>
   sanitizedName (str ''  Jo Smith '') = str ''Jo Smith'' \<and>
   sanitizedName (sanitizedName (str ''  Jo Smith '')) = sanitizedName (str ''  Jo Smith '') \<and>
   sanitizedMessage (sanitizedMessage (str '' Please review  ''))
     = sanitizedMessage (str '' Please review  '') \<and>
   sanitizedEmail sample_platform (sanitizedEmail sample_platform (str ''jo@example.com''))
     = sanitizedEmail sample_platform (str ''jo@example.com'') \<and>
   sanitizedEmail_p0 sample_platform (sanitizedEmail_p0 sample_platform (str ''jo@example.com''))
     = sanitizedEmail_p0 sample_platform (str ''jo@example.com'')"
proof -
  let ?b = "JObj [(str ''name'', JStr (str ''  Jo Smith '')),
                  (str ''email'', JStr (str ''jo@example.com'')),
                  (str ''url'', JStr (str ''https://app.example.com'')),
                  (str ''message'', JStr (str '' Please review  ''))]"
  have t: "trim (str ''  Jo Smith '') = str ''Jo Smith''"
    by (simp add: trim_def str_def is_space_def)
  have v: "validateContactRequest sample_platform ?b = Next"
    using app_example_com_valid [OF sample_platform_url] sample_email_valid
    by (simp add: validateContactRequest_Next_iff name_invalid_False_iff t finalMessage_def
        js_or_def message_too_long_def greater_def)
  have f: "field ?b (str ''name'') = JStr (str ''  Jo Smith '')"
          "field ?b (str ''email'') = JStr (str ''jo@example.com'')"
          "finalMessage ?b = JStr (str '' Please review  '')"
    by (simp_all add: finalMessage_def js_or_def)
  have n: "narrow (str ''jo@example.com'')"
    by (rule narrow_str)
  show ?thesis
    using sanitizer_idempotent [OF disjI1 [OF v] f disjI1 [OF n]] v n
    by (simp add: sanitizedName_def t substring0_def)
qed


section \<open>The contact limiter\<close>

lemma rateLimit_noskip:
  "rateLimit opts key (\<lambda>req. False) s r =
     (s(key r \<mapsto> (fst (current_window opts s (key r) (req_time r)),
                    Suc (snd (current_window opts s (key r) (req_time r))))),
      if max_hits opts < Suc (snd (current_window opts s (key r) (req_time r)))
      then Respond \<lparr>status = 429, payload = Text (limit_message opts)\<rparr> else Next)"
  by (simp add: rateLimit_def hit_def split: prod.splits)

lemma rateLimit_other_key:
  assumes "key r \<noteq> k"
  shows "fst (rateLimit opts key (\<lambda>req. False) s r) k = s k"
  using assms by (simp add: rateLimit_noskip)

lemma serve_other_keys:
  assumes "\<forall>r \<in> set rs. key r \<noteq> k"
  shows "serve (rateLimit opts key (\<lambda>req. False)) s rs k = s k"
  using assms
proof (induction rs arbitrary: s)
  case Nil
  then show ?case by (simp add: serve_def)
next
  case (Cons r rs)
  have "serve (rateLimit opts key (\<lambda>req. False)) s (r # rs) k
      = serve (rateLimit opts key (\<lambda>req. False)) (fst (rateLimit opts key (\<lambda>req. False) s r)) rs k"
    by (simp add: serve_def)
  also have "\<dots> = fst (rateLimit opts key (\<lambda>req. False) s r) k"
    using Cons by simp
  also have "\<dots> = s k"
    using Cons.prems by (simp add: rateLimit_other_key)
  finally show ?case .
qed

text \<open>One request of the key \<open>k\<close> whose window is open, followed by requests of other keys.\<close>

lemma hit_in_window:
  assumes "key r = k" and "s k = Some (w, n)" and "w \<le> req_time r" and "req_time r < w + windowMs opts"
      and "\<forall>r' \<in> set rs. key r' \<noteq> k"
  shows "snd (rateLimit opts key (\<lambda>req. False) s r) =
           (if max_hits opts < Suc n
            then Respond \<lparr>status = 429, payload = Text (limit_message opts)\<rparr> else Next)"
    and "serve (rateLimit opts key (\<lambda>req. False)) (fst (rateLimit opts key (\<lambda>req. False) s r)) rs k
           = Some (w, Suc n)"
proof -
  have cw: "current_window opts s k (req_time r) = (w, n)"
    using assms(2-4) by (simp add: current_window_def in_window_def)
  show "snd (rateLimit opts key (\<lambda>req. False) s r) =
           (if max_hits opts < Suc n
            then Respond \<lparr>status = 429, payload = Text (limit_message opts)\<rparr> else Next)"
    by (simp add: rateLimit_noskip assms(1) cw)
  show "serve (rateLimit opts key (\<lambda>req. False)) (fst (rateLimit opts key (\<lambda>req. False) s r)) rs k
           = Some (w, Suc n)"
    using assms(1) by (simp add: serve_other_keys [OF assms(5)] rateLimit_noskip cw)
qed

lemma hit_new_window:
  assumes "key r = k"
      and "case s k of None \<Rightarrow> True | Some (w, n) \<Rightarrow> w + windowMs opts \<le> req_time r"
      and "\<forall>r' \<in> set rs. key r' \<noteq> k"
  shows "snd (rateLimit opts key (\<lambda>req. False) s r) =
           (if max_hits opts < 1
            then Respond \<lparr>status = 429, payload = Text (limit_message opts)\<rparr> else Next)"
    and "serve (rateLimit opts key (\<lambda>req. False)) (fst (rateLimit opts key (\<lambda>req. False) s r)) rs k
           = Some (req_time r, 1)"
proof -
  have cw: "current_window opts s k (req_time r) = (req_time r, 0)"
    using assms(2) by (auto simp: current_window_def in_window_def split: option.splits)
  show "snd (rateLimit opts key (\<lambda>req. False) s r) =
           (if max_hits opts < 1
            then Respond \<lparr>status = 429, payload = Text (limit_message opts)\<rparr> else Next)"
    by (simp add: rateLimit_noskip assms(1) cw)
  show "serve (rateLimit opts key (\<lambda>req. False)) (fst (rateLimit opts key (\<lambda>req. False) s r)) rs k
           = Some (req_time r, 1)"
    using assms(1) by (simp add: serve_other_keys [OF assms(3)] rateLimit_noskip cw)
qed



section \<open>The origin guard and the health route\<close>

lemma empty_origin_not_listed: "[] \<notin> set allowedOrigins"
  by (simp add: allowedOrigins_def)

lemma foreign_origin_refused:
  "corsOptions_origin (Some (str ''https://evil.example'')) = Some cors_error"
  by (simp add: corsOptions_origin_def unset_def allowedOrigins_def)

lemma error_middleware_cors:
  "error_middleware cors_error = json_error 403 (str ''CORS blocked'') \<and>
   error_middleware_p0 e cors_error = json_error 403 (str ''CORS policy violation'')"
  by (simp add: error_middleware_def error_middleware_p0_def cors_error_def)

text \<open>
  Claim C8 (the origin guard permits a request whose origin is absent or on the allow-list;
  any other request is rejected with a 403, not the generic 500, before the contact
  pipeline runs). As stated it fails for one origin: the guard's first test is
  \<open>!origin\<close>, so an \<open>Origin\<close> header that is present and empty, which is not on the
  allow-list, is permitted too, and the sample submission sent with it is delivered.
\<close>

theorem empty_origin_permitted:
  "corsOptions_origin (Some []) = None \<and> [] \<notin> set allowedOrigins \<and>
   fst (snd (app sample_platform sample_env sample_relay fresh_state
               (sample_request\<lparr>req_origin := Some []\<rparr>)))
     = Respond \<lparr>status = 200, payload = Json [(str ''success'', JBool True)]\<rparr>"
proof -
  have g: "passes_guards fresh_state (sample_request\<lparr>req_origin := Some []\<rparr>)"
    by (simp add: passes_guards_def fresh_state_def sample_request_def corsOptions_origin_def
        unset_def globalLimiter_def contactLimiter_def rateLimit_def hit_def current_window_def
        route_matches_exact)
  have b: "req_json (sample_request\<lparr>req_origin := Some []\<rparr>) = Parsed sample_body"
    by (simp add: sample_request_def)
  have cfg: "\<not> env_missing sample_env"
    by (simp add: env_missing_def unset_def sample_env_def)
  have v: "validateContactRequest sample_platform sample_body = Next"
    using sample_body_valid [OF sample_platform_url] by simp
  have h: "fst (contact_handler sample_platform sample_env sample_relay
                 (sample_request\<lparr>req_origin := Some []\<rparr>) sample_body)
             = Respond \<lparr>status = 200, payload = Json [(str ''success'', JBool True)]\<rparr>"
    using sample_handler [where e = sample_env and R = sample_relay and P = sample_platform
        and req = "sample_request\<lparr>req_origin := Some []\<rparr>", OF cfg _ _ refl]
    by (simp add: sample_relay_def)
  show ?thesis
    using app_passes_guards [OF g b] v h
    by (simp add: corsOptions_origin_def unset_def empty_origin_not_listed contact_stages_def
        sanitized_sample_body)
qed

text \<open>
  Claim C8, amended: the guard permits the request exactly when its origin is absent,
  empty or on the allow-list. Every other request gets the 403 of the error middleware
  (\<open>CORS blocked\<close> in src/server.js, \<open>CORS policy violation\<close> in
  src/unnamed/part_000), whatever its method and path; no limiter has counted it and the
  relay has not been called.
\<close>

theorem origin_guard:
  "(corsOptions_origin (req_origin req) = None) =
     (req_origin req = None \<or> req_origin req = Some [] \<or>
      (\<exists>origin. req_origin req = Some origin \<and> origin \<in> set allowedOrigins)) \<and>
   (corsOptions_origin (req_origin req) \<noteq> None \<longrightarrow>
      app P e R st req = (st, json_error 403 (str ''CORS blocked''), []) \<and>
      app_p0 P e R st req = (st, json_error 403 (str ''CORS policy violation''), []))"
proof -
  have "(corsOptions_origin (req_origin req) = None) =
     (req_origin req = None \<or> req_origin req = Some [] \<or>
      (\<exists>origin. req_origin req = Some origin \<and> origin \<in> set allowedOrigins))"
    by (cases "req_origin req") (auto simp: corsOptions_origin_def unset_def)
  moreover have "corsOptions_origin (req_origin req) \<noteq> None \<longrightarrow>
      app P e R st req = (st, json_error 403 (str ''CORS blocked''), []) \<and>
      app_p0 P e R st req = (st, json_error 403 (str ''CORS policy violation''), [])"
    using error_middleware_cors [of e]
    by (auto simp: app_def app_p0_def corsOptions_origin_def split: if_splits)
  ultimately show ?thesis by simp
qed

theorem origin_guard_witness:
  "corsOptions_origin (req_origin (sample_request\<lparr>req_origin := Some (str ''https://evil.example'')\<rparr>))
     \<noteq> None \<and>
   app sample_platform sample_env sample_relay fresh_state
       (sample_request\<lparr>req_origin := Some (str ''https://evil.example'')\<rparr>)
     = (fresh_state, json_error 403 (str ''CORS blocked''), []) \<and>
   app_p0 sample_platform sample_env sample_relay fresh_state
       (sample_request\<lparr>req_origin := Some (str ''https://evil.example'')\<rparr>)
     = (fresh_state, json_error 403 (str ''CORS policy violation''), [])"
  using origin_guard [of "sample_request\<lparr>req_origin := Some (str ''https://evil.example'')\<rparr>"
      sample_platform sample_env sample_relay fresh_state] foreign_origin_refused
  by simp

text \<open>
  The routes of both files for a request that the origin guard permits, that is not a
  preflight and whose body the parser accepts.
\<close>

lemma app_routes:
  assumes "corsOptions_origin (req_origin req) = None" and "req_method req \<noteq> OPTIONS"
      and "req_json req = Parsed b"
  shows "app P e R st req = routes P e R st req (sanitized b) \<and>
         app_p0 P e R st req = routes_p0 P e R st req (sanitized b)"
  using assms by (simp add: app_def app_p0_def)

lemma health_slash_matches: "route_matches ''/health'' (str ''/health/'')"
  by (simp add: route_matches_def str_def)

lemma health_capitals_match: "route_matches ''/health'' (str ''/HEALTH'')"
  by (simp add: route_matches_def str_def canonicalize_def)

text \<open>
  A call to the health route under another spelling of its path, such as \<open>/health/\<close>
  or \<open>/HEALTH\<close>: the global limiter counts it, and answers it with 429 once the
  client's count in the window is over 5.
\<close>

lemma health_other_spelling_counted:
  assumes "req_method req = GET" and "route_matches ''/health'' (req_path req)"
      and "req_path req \<noteq> str ''/health''"
      and "corsOptions_origin (req_origin req) = None" and "req_json req = Parsed b"
  shows "\<exists>w n. app P e R st req =
           (st\<lparr>global_store := (global_store st)(req_ip req \<mapsto> (w, Suc n))\<rparr>,
            (if 5 < Suc n then Respond \<lparr>status = 429, payload = Text default_message\<rparr>
             else health P req), []) \<and>
         app_p0 P e R st req =
           (st\<lparr>global_store := (global_store st)(req_ip req \<mapsto> (w, Suc n))\<rparr>,
            (if 5 < Suc n
             then Respond \<lparr>status = 429,
                           payload = Text (str ''Too many requests, please try again later'')\<rparr>
             else health_p0 P req), [])"
proof -
  let ?o = "\<lparr>windowMs = 15 * 60 * 1000, max_hits = 5, limit_message = default_message\<rparr>"
  obtain w n where c: "current_window ?o (global_store st) (req_ip req) (req_time req) = (w, n)"
    by (cases "current_window ?o (global_store st) (req_ip req) (req_time req)")
  have c0: "current_window
      \<lparr>windowMs = 15 * 60 * 1000, max_hits = 5,
       limit_message = str ''Too many requests, please try again later''\<rparr>
      (global_store st) (req_ip req) (req_time req) = (w, n)"
    using c by (simp add: current_window_def in_window_def cong: option.case_cong)
  have "app P e R st req =
           (st\<lparr>global_store := (global_store st)(req_ip req \<mapsto> (w, Suc n))\<rparr>,
            (if 5 < Suc n then Respond \<lparr>status = 429, payload = Text default_message\<rparr>
             else health P req), [])"
    using assms c
    by (simp add: app_def routes_def globalLimiter_def rateLimit_def hit_def)
  moreover have "app_p0 P e R st req =
           (st\<lparr>global_store := (global_store st)(req_ip req \<mapsto> (w, Suc n))\<rparr>,
            (if 5 < Suc n
             then Respond \<lparr>status = 429,
                           payload = Text (str ''Too many requests, please try again later'')\<rparr>
             else health_p0 P req), [])"
    using assms c0
    by (simp add: app_p0_def routes_p0_def limiter_p0_def rateLimit_def hit_def)
  ultimately show ?thesis by blast
qed




section \<open>The name check\<close>

lemma contact_stages_calls:
  "snd (contact_stages P e R req b) =
     (if validateContactRequest P b = Next then snd (contact_handler P e R req b) else [])"
  by (cases "validateContactRequest P b") (simp_all add: contact_stages_def)

lemma contact_stages_p0_calls:
  "snd (contact_stages_p0 P e R req b) =
     (if validateContactRequest_p0 P b = Next then snd (contact_handler_p0 P e R req b) else [])"
  by (cases "validateContactRequest_p0 P b") (simp_all add: contact_stages_p0_def)

text \<open>Every call to the relay is one the handler makes, for a body the validator let through.\<close>

lemma app_calls:
  "snd (snd (app P e R st req)) = [] \<or>
   (\<exists>p. req_json req = Parsed p \<and> validateContactRequest P (sanitized p) = Next \<and>
        snd (snd (app P e R st req)) = snd (contact_handler P e R req (sanitized p)))"
proof (cases "req_json req")
  case (Refused err)
  then show ?thesis by (simp add: app_def split: option.splits)
next
  case (Parsed p)
  have r: "snd (snd (contact_route P e R s req b)) = [] \<or>
      snd (snd (contact_route P e R s req b)) = snd (contact_stages P e R req b)" for s b
    by (simp add: contact_route_def split: prod.splits outcome.splits)
  have "snd (snd (routes P e R st req b)) = [] \<or>
      snd (snd (routes P e R st req b)) = snd (contact_stages P e R req b)" for b
    using r [of "st\<lparr>global_store := fst (globalLimiter (global_store st) req)\<rparr>" b]
    by (auto simp: routes_def json_error_def health_def split: prod.splits outcome.splits)
  from this [of "sanitized p"] show ?thesis
    by (auto simp: app_def Parsed contact_stages_calls split: option.splits if_splits)
qed

lemma app_p0_calls:
  "snd (snd (app_p0 P e R st req)) = [] \<or>
   (\<exists>p. req_json req = Parsed p \<and> validateContactRequest_p0 P (sanitized p) = Next \<and>
        snd (snd (app_p0 P e R st req)) = snd (contact_handler_p0 P e R req (sanitized p)))"
proof (cases "req_json req")
  case (Refused err)
  then show ?thesis by (simp add: app_p0_def split: option.splits)
next
  case (Parsed p)
  have r: "snd (snd (contact_route_p0 P e R s req b)) = [] \<or>
      snd (snd (contact_route_p0 P e R s req b)) = snd (contact_stages_p0 P e R req b)" for s b
    by (simp add: contact_route_p0_def split: prod.splits outcome.splits)
  have "snd (snd (routes_p0 P e R st req b)) = [] \<or>
      snd (snd (routes_p0 P e R st req b)) = snd (contact_stages_p0 P e R req b)" for b
    using r [of "st\<lparr>global_store := fst (limiter_p0 (global_store st) req)\<rparr>" b]
    by (auto simp: routes_p0_def json_error_def health_p0_def split: prod.splits outcome.splits)
  from this [of "sanitized p"] show ?thesis
    by (auto simp: app_p0_def Parsed contact_stages_p0_calls split: option.splits if_splits)
qed

lemma app_no_call_unless_valid:
  assumes "req_json req = Parsed p" and "validateContactRequest P (sanitized p) \<noteq> Next"
  shows "snd (snd (app P e R st req)) = []"
  using app_calls [of P e R st req] assms by auto

lemma app_p0_no_call_unless_valid:
  assumes "req_json req = Parsed p" and "validateContactRequest_p0 P (sanitized p) \<noteq> Next"
  shows "snd (snd (app_p0 P e R st req)) = []"
  using app_p0_calls [of P e R st req] assms by auto

text \<open>The name as the validator receives it.\<close>

lemma received_name:
  "field (sanitized p) (str ''name'') =
     (case field p (str ''name'') of JStr s \<Rightarrow> JStr (escape_lt s) | n \<Rightarrow> mongoSanitize (xss n))"
  by (simp add: field_sanitized_handler split: jsval.splits)

text \<open>What the handler of src/server.js does with a body whose fields are strings.\<close>

lemma contact_handler_sends:
  assumes "\<not> env_missing e" and "verify R (createTransport e)"
      and "sendMail R (createTransport e) m \<noteq> None"
      and "field b (str ''name'') = JStr nm" and "field b (str ''email'') = JStr em"
      and "finalMessage b = JStr msg"
      and "m = \<lparr>mail_from = or_else (FROM_EMAIL e) (or_else (SMTP_USER e) []),
                 mail_to = or_else (TO_EMAIL e) [],
                 replyTo = sanitizedEmail P em,
                 subject = str ''[Jalwan] New Contact from '' @ sanitizedName nm,
                 mail_text = emailBody P req (field b (str ''url'')) (sanitizedName nm)
                               (sanitizedEmail P em) (sanitizedMessage msg),
                 mail_headers =
                   [(str ''X-Client-IP'', getClientIp req),
                    (str ''X-Mailer'', str ''Jalwan Contact API'')]\<rparr>"
  shows "contact_handler P e R req b =
           (Respond \<lparr>status = 200, payload = Json [(str ''success'', JBool True)]\<rparr>,
            [Verify (createTransport e), SendMail (createTransport e) m])"
proof -
  have "b \<noteq> JUndefined" "b \<noteq> JNull"
    using assms(4) by auto
  moreover have "sanitizedMessage [] = []"
    by (simp add: sanitizedMessage_def)
  ultimately show ?thesis
    using assms(1-6)
    by (cases "msg = []") (auto simp: contact_handler_def Let_def as_string_def send_def assms(7))
qed




section \<open>The message and its alternate field\<close>

lemma finalMessage_sanitized:
  "finalMessage (sanitized p) =
     js_or (js_or (mongoSanitize (xss (field p (str ''message''))))
                  (mongoSanitize (xss (field p (str ''description''))))) (JStr [])"
  by (simp add: finalMessage_def field_sanitized_handler)

lemma truthy_field_object:
  assumes "truthy (field b k)"
  shows "b \<noteq> JUndefined \<and> b \<noteq> JNull"
  using assms by (cases b) simp_all

lemma limiters_ignore_body:
  "globalLimiter s (req\<lparr>req_json := x\<rparr>) = globalLimiter s req \<and>
   contactLimiter s (req\<lparr>req_json := x\<rparr>) = contactLimiter s req \<and>
   limiter_p0 s (req\<lparr>req_json := x\<rparr>) = limiter_p0 s req \<and>
   contactLimiter_p0 s (req\<lparr>req_json := x\<rparr>) = contactLimiter_p0 s req"
  by (simp add: globalLimiter_def contactLimiter_def limiter_p0_def contactLimiter_p0_def
      rateLimit_def getClientIp_def)

text \<open>
  Two bodies with the same name, address, URL and truthy message, whatever else they
  hold: the validators and the handlers do the same with both.
\<close>

lemma same_message:
  assumes "truthy (field b (str ''message''))"
      and "field b' (str ''message'') = field b (str ''message'')"
  shows "finalMessage b = field b (str ''message'')"
    and "finalMessage b' = field b (str ''message'')"
  using assms by (simp_all add: finalMessage_def js_or_def)

lemma validators_ignore_description:
  assumes "truthy (field b (str ''message''))"
      and "field b' (str ''message'') = field b (str ''message'')"
      and "field b' (str ''name'') = field b (str ''name'')"
      and "field b' (str ''email'') = field b (str ''email'')"
      and "field b' (str ''url'') = field b (str ''url'')"
  shows "validateContactRequest P b' = validateContactRequest P b \<and>
         validateContactRequest_p0 P b' = validateContactRequest_p0 P b"
  using same_message [OF assms(1,2)] assms(3-5)
  by (simp add: validateContactRequest_def validateContactRequest_p0_def field_body_or_empty
      finalMessage_body_or_empty Let_def cong: option.case_cong bool.case_cong)

lemma getClientIp_body: "getClientIp (req\<lparr>req_json := x\<rparr>) = getClientIp req"
  by (simp add: getClientIp_def)

lemma emailBody_body: "emailBody P (req\<lparr>req_json := x\<rparr>) u a b c = emailBody P req u a b c"
  by (simp add: emailBody_def getClientIp_body)

lemma handlers_ignore_description:
  assumes "truthy (field b (str ''message''))"
      and "field b' (str ''message'') = field b (str ''message'')"
      and "field b' (str ''name'') = field b (str ''name'')"
      and "field b' (str ''email'') = field b (str ''email'')"
      and "field b' (str ''url'') = field b (str ''url'')"
  shows "contact_handler P e R (req\<lparr>req_json := x\<rparr>) b' = contact_handler P e R req b \<and>
         contact_handler_p0 P e R (req\<lparr>req_json := x\<rparr>) b' = contact_handler_p0 P e R req b"
proof -
  have t': "truthy (field b' (str ''message''))"
    using assms(1,2) by simp
  have obj: "b \<noteq> JUndefined" "b \<noteq> JNull" "b' \<noteq> JUndefined" "b' \<noteq> JNull"
    using truthy_field_object [OF assms(1)] truthy_field_object [OF t'] by simp_all
  show ?thesis
    using same_message [OF assms(1,2)] assms(2-5) obj
    by (simp add: contact_handler_def contact_handler_p0_def Let_def emailBody_body
        getClientIp_body cong: option.case_cong prod.case_cong if_cong)
qed

lemma apps_ignore_description:
  assumes "truthy (field p (str ''message''))"
      and "\<forall>k. k \<noteq> str ''description'' \<longrightarrow> field p' k = field p k"
      and "req_json req = Parsed p"
  shows "app P e R st (req\<lparr>req_json := Parsed p'\<rparr>) = app P e R st req \<and>
         app_p0 P e R st (req\<lparr>req_json := Parsed p'\<rparr>) = app_p0 P e R st req"
proof -
  let ?b = "sanitized p" and ?b' = "sanitized p'"
  let ?req' = "req\<lparr>req_json := Parsed p'\<rparr>"
  have f: "field p' (str ''name'') = field p (str ''name'')"
          "field p' (str ''email'') = field p (str ''email'')"
          "field p' (str ''url'') = field p (str ''url'')"
          "field p' (str ''message'') = field p (str ''message'')"
    using assms(2) by simp_all
  have t: "truthy (field ?b (str ''message''))"
    using assms(1) by (simp add: field_sanitized_handler truthy_sanitizers)
  have m: "field ?b' (str ''message'') = field ?b (str ''message'')"
    and n: "field ?b' (str ''name'') = field ?b (str ''name'')"
    and a: "field ?b' (str ''email'') = field ?b (str ''email'')"
    and u: "field ?b' (str ''url'') = field ?b (str ''url'')"
    by (simp_all add: field_sanitized_handler f)
  have v: "validateContactRequest P ?b' = validateContactRequest P ?b"
          "validateContactRequest_p0 P ?b' = validateContactRequest_p0 P ?b"
    using validators_ignore_description [OF t m n a u] by simp_all
  have h: "contact_handler P e R ?req' ?b' = contact_handler P e R req ?b"
          "contact_handler_p0 P e R ?req' ?b' = contact_handler_p0 P e R req ?b"
    using handlers_ignore_description [OF t m n a u] by simp_all
  have stages: "contact_stages P e R ?req' ?b' = contact_stages P e R req ?b"
               "contact_stages_p0 P e R ?req' ?b' = contact_stages_p0 P e R req ?b"
    by (simp_all add: contact_stages_def contact_stages_p0_def v h cong: outcome.case_cong)
  have route: "contact_route P e R s ?req' ?b' = contact_route P e R s req ?b"
              "contact_route_p0 P e R s ?req' ?b' = contact_route_p0 P e R s req ?b" for s
    using limiters_ignore_body [where s = "contact_store s" and req = req and x = "Parsed p'"]
    by (simp_all add: contact_route_def contact_route_p0_def stages
        cong: prod.case_cong outcome.case_cong)
  have routes: "routes P e R st ?req' ?b' = routes P e R st req ?b"
               "routes_p0 P e R st ?req' ?b' = routes_p0 P e R st req ?b"
    using limiters_ignore_body [where s = "global_store st" and req = req and x = "Parsed p'"]
    by (simp_all add: routes_def routes_p0_def route health_def health_p0_def
        cong: prod.case_cong outcome.case_cong if_cong)
  show ?thesis
    by (simp add: app_def app_p0_def assms(3) routes
        cong: option.case_cong if_cong)
qed

text \<open>The text of the mail, line by line.\<close>

lemma emailBody_lines:
  "emailBody P req url sname semail smsg =
     join_nl ([str ''Name: '' @ sname, str ''Email: '' @ semail,
               str ''Web App URL: '' @ template P url] @
              (if smsg = [] then [] else [str ''Message: '' @ smsg]) @
              [str ''---- META ----'',
               str ''IP Address: '' @ getClientIp req,
               str ''User-Agent: '' @ or_else (req_user_agent req) (str ''Unknown''),
               str ''Submitted At: '' @ toISOString P (req_time req)])"
  by (simp add: emailBody_def)

lemma body_p0_lines:
  "body_p0 P url sname semail smsg =
     join_nl ([str ''Name: '' @ sname, str ''Email: '' @ semail,
               str ''Web App URL: '' @ template P url] @
              (if smsg = [] then [] else [str ''Message: '' @ smsg]))"
  by (simp add: body_p0_def)

text \<open>Every mail a handler hands to the relay, for a body whose message is a string.\<close>

lemma contact_handler_mail:
  assumes "SendMail t mail \<in> set (snd (contact_handler P e R req b))"
      and "finalMessage b = JStr x"
  shows "\<exists>nm em. field b (str ''name'') = JStr nm \<and> field b (str ''email'') = JStr em \<and>
           mail_text mail = emailBody P req (field b (str ''url'')) (sanitizedName nm)
                              (sanitizedEmail P em) (sanitizedMessage x)"
proof -
  have e: "sanitizedMessage [] = []"
    by (simp add: sanitizedMessage_def)
  show ?thesis
    using assms
    by (cases "x = []")
       (auto simp: contact_handler_def Let_def as_string_def send_def json_error_def e
          split: if_splits option.splits jsval.splits)
qed

lemma contact_handler_p0_mail:
  assumes "SendMail t mail \<in> set (snd (contact_handler_p0 P e R req b))"
      and "finalMessage b = JStr x"
  shows "\<exists>nm em. field b (str ''name'') = JStr nm \<and> field b (str ''email'') = JStr em \<and>
           mail_text mail = body_p0 P (field b (str ''url'')) (sanitizedName nm)
                              (sanitizedEmail_p0 P em) (sanitizedMessage x)"
proof -
  have e: "sanitizedMessage [] = []"
    by (simp add: sanitizedMessage_def)
  show ?thesis
    using assms
    by (cases "x = []")
       (auto simp: contact_handler_p0_def Let_def as_string_def send_def json_error_def e
          split: if_splits option.splits jsval.splits)
qed

lemma sanitizedMessage_validated:
  assumes "x \<noteq> []" and "length x \<le> 500"
  shows "sanitizedMessage x = trim x"
  using assms length_trim_le [of x] by (simp add: sanitizedMessage_def substring0_def)

lemma message_too_long_string:
  "x \<noteq> [] \<Longrightarrow> message_too_long P (JStr x) = Some (500 < length x)"
  by (simp add: message_too_long_def greater_def)




end
